theory Spec2Isabelle
  imports Complex_Main "HOL-Library.Signed_Division" "HOL-Library.AList"
begin

section \<open>Values exchanged with the database driver and the Go runtime\<close>

text \<open>
  A \<open>float64\<close> is not-a-number (payloads are not told apart), an infinity, negative zero,
  or \<open>Float r\<close> for the finite double whose value is the real \<open>r\<close>; positive zero is
  \<open>Float 0\<close>. A finite double has 53 significant bits.
\<close>

datatype float64 = NaN | PosInf | NegInf | NegZero | Float real

text \<open>
  The conversion \<open>float64(v)\<close> of an \<open>int64\<close> rounds to the nearest double, ties to the even
  significand. \<open>bitLength n\<close> is the number of bits of \<open>n\<close>; an integer of \<open>53 + k\<close> bits
  lies between doubles that are multiples of \<open>2^k\<close>, and \<open>roundHalfEven n d\<close> is the
  quotient of \<open>n\<close> by \<open>d\<close> rounded to nearest, ties to even.
\<close>

fun bitLength :: "nat \<Rightarrow> nat" where
  "bitLength n = (if n = 0 then 0 else Suc (bitLength (n div 2)))"

declare bitLength.simps [simp del]

definition roundHalfEven :: "int \<Rightarrow> int \<Rightarrow> int" where
  "roundHalfEven n d =
     (if d < 2 * (n mod d) \<or> (2 * (n mod d) = d \<and> odd (n div d)) then n div d + 1 else n div d)"

definition roundInt53 :: "int \<Rightarrow> int" where
  "roundInt53 i =
     sgn i * (roundHalfEven \<bar>i\<bar> (2 ^ (bitLength (nat \<bar>i\<bar>) - 53)) * 2 ^ (bitLength (nat \<bar>i\<bar>) - 53))"

definition float64_of_int64 :: "int \<Rightarrow> float64" where
  "float64_of_int64 i = Float (of_int (roundInt53 i))"

text \<open>
  The dynamic type of an \<open>interface{}\<close> value filled in by \<open>database/sql\<close> when scanning
  into \<open>*interface{}\<close>: \<open>int64\<close>, \<open>float64\<close>, \<open>bool\<close>, \<open>[]byte\<close>, \<open>string\<close>, \<open>time.Time\<close>
  (of which only the result of \<open>Unix()\<close> is read) or \<open>nil\<close>.
\<close>

datatype dbval =
    DInt64 int
  | DFloat64 float64
  | DBool bool
  | DBytes string
  | DString string
  | DTime (Unix: int)
  | DNil

datatype logLevel = LDebug | LInfo | LWarn | LError

type_synonym logline = "logLevel \<times> string"

datatype error =
    LibError string
  | NoVersionFound string
  | WrongColumnUsage string
  | QueryFailed string
  | ColumnListFailed string
  | RowsFailed string
  | ParseColumnFailed string string
  | UnparseableColumn string string

record Version =
  Major :: nat
  Minor :: nat
  Patch :: nat
  Pre :: "string list"
  Build :: "string list"

text \<open>The values \<open>yaml.Unmarshal\<close> stores in an \<open>interface{}\<close>.\<close>

datatype yaml =
    YString string
  | YInt int
  | YFloat float64
  | YBool bool
  | YNull
  | YSeq "yaml list"
  | YMap "(yaml \<times> yaml) list"

record Desc =
  fqName :: string
  helpString :: string
  variableLabels :: "string list"

section \<open>Column usage model and catalog\<close>

datatype ColumnUsage = DISCARD | LABEL | COUNTER | GAUGE | MAPPEDMETRIC | DURATION

text \<open>A \<open>semver.Range\<close> is a predicate on versions.\<close>

type_synonym Range = "Version \<Rightarrow> bool"

record ColumnMapping =
  usage :: ColumnUsage
  description :: string
  mapping :: "string \<rightharpoonup> float64"
  supportedVersions :: "Range option"

datatype ValueType = ValueTypeUnset | CounterValue | GaugeValue | UntypedValue

record MetricMap =
  discard :: bool
  vtype :: ValueType
  desc :: "Desc option"
  conversion :: "dbval \<Rightarrow> (float64 \<times> bool) \<times> logline list"

record MetricMapNamespace =
  labels :: "string list"
  columnMappings :: "string \<rightharpoonup> MetricMap"

record OverrideQuery =
  versionRange :: Range
  query :: string

text \<open>
  A Go map that the code walks with \<open>range\<close> is an association list with distinct keys,
  in the order in which that \<open>range\<close> visits it; the runtime does not fix this order, and
  two walks of one map are independent. A map that the code walks twice is the pair of its
  two walks. A Go map that is only indexed and assigned is a HOL map.
\<close>

type_synonym 'v gomap = "(string \<times> 'v) list"

type_synonym 'v walks = "'v gomap \<times> 'v gomap"

section \<open>Libraries and runtime\<close>

text \<open>
  Functions of libraries outside the repository are parameters of the embedding:
  \<open>strconv.ParseFloat(s, 64)\<close>, \<open>time.ParseDuration\<close> (nanoseconds), the \<open>%v\<close> rendering of a
  \<open>float64\<close>, \<open>semver.ParseTolerant\<close>, \<open>yaml.Unmarshal\<close> into \<open>map[string]interface{}\<close>, and
  whether \<open>prometheus.NewConstMetric\<close> rejects a descriptor with given label values. An
  error of a library call is \<open>None\<close> or \<open>Inl\<close>. \<open>RangeOrder\<close> is the choice of the runtime for
  the map that \<open>addQueries\<close> builds and hands to \<open>makeDescMap\<close>: a walk of its namespaces and,
  for each, the two walks of its columns.
\<close>

record golib =
  ParseFloat :: "string \<Rightarrow> float64 option"
  ParseDuration :: "string \<Rightarrow> int option"
  FormatFloat :: "float64 \<Rightarrow> string"
  ParseTolerant :: "string \<Rightarrow> error + Version"
  Unmarshal :: "string \<Rightarrow> error + (string \<times> yaml) list"
  ConstMetricError :: "Desc \<Rightarrow> string list \<Rightarrow> bool"
  RangeOrder :: "ColumnMapping gomap gomap \<Rightarrow> ColumnMapping walks gomap"

text \<open>
  What a Go call does: it returns a value, returns an error, or panics (a failed type
  assertion, an index out of range, a nil dereference, a \<open>Must\<close> function).
\<close>

datatype 'a result = Done 'a | Failed error | Panicked string

fun thenR :: "'a result \<Rightarrow> ('a \<Rightarrow> 'b result) \<Rightarrow> 'b result" where
  "thenR (Done x) f = f x"
| "thenR (Failed e) f = Failed e"
| "thenR (Panicked p) f = Panicked p"

text \<open>A loop whose body may return early with an error or panic.\<close>

fun foldResult :: "('x \<Rightarrow> 's \<Rightarrow> 's result) \<Rightarrow> 'x list \<Rightarrow> 's \<Rightarrow> 's result" where
  "foldResult f [] s = Done s"
| "foldResult f (x # xs) s = thenR (f x s) (foldResult f xs)"

definition goIndex :: "'a list \<Rightarrow> nat \<Rightarrow> 'a result" where
  "goIndex xs i = (if i < length xs then Done (xs ! i) else Panicked ''index out of range'')"

section \<open>Row conversion helpers\<close>

text \<open>\<open>dbToFloat64\<close>: the result pair, and the lines it logs.\<close>

fun dbToFloat64 :: "golib \<Rightarrow> dbval \<Rightarrow> (float64 \<times> bool) \<times> logline list" where
  "dbToFloat64 lib (DInt64 v) = ((float64_of_int64 v, True), [])"
| "dbToFloat64 lib (DFloat64 v) = ((v, True), [])"
| "dbToFloat64 lib (DTime u) = ((float64_of_int64 u, True), [])"
| "dbToFloat64 lib (DBytes v) =
     (case ParseFloat lib v of
        None \<Rightarrow> ((NaN, False), [(LInfo, ''Could not parse []byte:'')])
      | Some result \<Rightarrow> ((result, True), []))"
| "dbToFloat64 lib (DString v) =
     (case ParseFloat lib v of
        None \<Rightarrow> ((NaN, False), [(LInfo, ''Could not parse string:'')])
      | Some result \<Rightarrow> ((result, True), []))"
| "dbToFloat64 lib DNil = ((NaN, True), [])"
| "dbToFloat64 lib (DBool b) = ((NaN, False), [])"

text \<open>The decimal rendering of an integer by \<open>fmt.Sprintf("%v", v)\<close>.\<close>

definition digitChar :: "nat \<Rightarrow> char" where
  "digitChar d = ''0123456789'' ! d"

fun showNat :: "nat \<Rightarrow> string" where
  "showNat n = (if n < 10 then [digitChar n] else showNat (n div 10) @ [digitChar (n mod 10)])"

declare showNat.simps [simp del]

definition showInt :: "int \<Rightarrow> string" where
  "showInt i = (if i < 0 then CHR ''-'' # showNat (nat (- i)) else showNat (nat i))"

fun dbToString :: "golib \<Rightarrow> dbval \<Rightarrow> string \<times> bool" where
  "dbToString lib (DInt64 v) = (showInt v, True)"
| "dbToString lib (DFloat64 v) = (FormatFloat lib v, True)"
| "dbToString lib (DTime u) = (showInt u, True)"
| "dbToString lib DNil = ('''', True)"
| "dbToString lib (DBytes v) = (v, True)"
| "dbToString lib (DString v) = (v, True)"
| "dbToString lib (DBool b) = ('''', False)"

section \<open>Version resolver\<close>

text \<open>
  The pattern \<^verbatim>\<open>^\w+ ((\d+)(\.\d+)?(\.\d+)?)\<close>: a matcher with the leftmost-first
  preference of Go's \<open>regexp\<close>. \<open>rmatch r s\<close> lists what is left of \<open>s\<close> after each way
  of matching \<open>r\<close> at its start, the preferred way first.
\<close>

datatype regex = Class "char \<Rightarrow> bool" | Plus "char \<Rightarrow> bool" | Opt regex | Seq regex regex

fun plusRests :: "(char \<Rightarrow> bool) \<Rightarrow> string \<Rightarrow> string list" where
  "plusRests p [] = []"
| "plusRests p (c # cs) = (if p c then plusRests p cs @ [cs] else [])"

fun rmatch :: "regex \<Rightarrow> string \<Rightarrow> string list" where
  "rmatch (Class p) [] = []"
| "rmatch (Class p) (c # cs) = (if p c then [cs] else [])"
| "rmatch (Plus p) s = plusRests p s"
| "rmatch (Opt r) s = rmatch r s @ [s]"
| "rmatch (Seq a b) s = concat (map (rmatch b) (rmatch a s))"

definition isDigit :: "char \<Rightarrow> bool" where
  "isDigit c = (48 \<le> (of_char c :: nat) \<and> (of_char c :: nat) \<le> 57)"

definition isWordChar :: "char \<Rightarrow> bool" where
  "isWordChar c =
     (isDigit c \<or> (65 \<le> (of_char c :: nat) \<and> (of_char c :: nat) \<le> 90)
      \<or> (97 \<le> (of_char c :: nat) \<and> (of_char c :: nat) \<le> 122) \<or> c = CHR ''_'')"

definition dotDigits :: regex where
  "dotDigits = Seq (Class (\<lambda>c. c = CHR ''.'')) (Plus isDigit)"

definition leadingWordRe :: regex where
  "leadingWordRe = Seq (Plus isWordChar) (Class (\<lambda>c. c = CHR '' ''))"

definition versionTokenRe :: regex where
  "versionTokenRe = Seq (Plus isDigit) (Seq (Opt dotDigits) (Opt dotDigits))"

text \<open>
  \<open>versionRegex.FindStringSubmatch(s)\<close>, reduced to what \<open>parseVersion\<close> reads of it:
  \<open>submatches[1]\<close> when there is a match.
\<close>

definition versionSubmatch :: "string \<Rightarrow> string option" where
  "versionSubmatch s =
     (case concat (map (\<lambda>r1. map (\<lambda>r2. take (length r1 - length r2) r1) (rmatch versionTokenRe r1))
                       (rmatch leadingWordRe s)) of
        [] \<Rightarrow> None
      | t # _ \<Rightarrow> Some t)"

definition parseVersion :: "golib \<Rightarrow> string \<Rightarrow> error + Version" where
  "parseVersion lib versionString =
     (case versionSubmatch versionString of
        Some tok \<Rightarrow> ParseTolerant lib tok
      | None \<Rightarrow> Inl (NoVersionFound versionString))"

text \<open>
  \<open>makeQueryOverrideMap\<close>. The inner loop stops at the first candidate whose range accepts
  the version; \<open>None\<close> is \<open>matched == false\<close>.
\<close>

fun firstMatch :: "Version \<Rightarrow> OverrideQuery list \<Rightarrow> string option" where
  "firstMatch pgVersion [] = None"
| "firstMatch pgVersion (queryDef # rest) =
     (if versionRange queryDef pgVersion then Some (query queryDef) else firstMatch pgVersion rest)"

definition overrideStep ::
  "Version \<Rightarrow> string \<times> OverrideQuery list \<Rightarrow> (string \<rightharpoonup> string) \<Rightarrow> (string \<rightharpoonup> string)" where
  "overrideStep pgVersion entry resultMap =
     (case firstMatch pgVersion (snd entry) of
        Some q \<Rightarrow> resultMap(fst entry \<mapsto> q)
      | None \<Rightarrow> resultMap(fst entry \<mapsto> ''''))"

definition makeQueryOverrideMap ::
  "Version \<Rightarrow> OverrideQuery list gomap \<Rightarrow> (string \<rightharpoonup> string)" where
  "makeQueryOverrideMap pgVersion queryOverrides = fold (overrideStep pgVersion) queryOverrides Map.empty"

section \<open>Map builder\<close>

definition NewDesc :: "string \<Rightarrow> string \<Rightarrow> string list \<Rightarrow> Desc" where
  "NewDesc name hlp ls = \<lparr>fqName = name, helpString = hlp, variableLabels = ls\<rparr>"

definition discardedColumn :: MetricMap where
  "discardedColumn =
     \<lparr>discard = True, vtype = ValueTypeUnset, desc = None, conversion = (\<lambda>_. ((NaN, True), []))\<rparr>"

definition mappedConversion :: "(string \<rightharpoonup> float64) \<Rightarrow> dbval \<Rightarrow> (float64 \<times> bool) \<times> logline list" where
  "mappedConversion m inp =
     (case inp of
        DString text \<Rightarrow> (case m text of None \<Rightarrow> ((NaN, False), []) | Some val \<Rightarrow> ((val, True), []))
      | _ \<Rightarrow> ((NaN, False), []))"

text \<open>\<open>d / time.Millisecond\<close> divides two \<open>int64\<close>: Go truncates toward zero.\<close>

definition durationConversion :: "golib \<Rightarrow> dbval \<Rightarrow> (float64 \<times> bool) \<times> logline list" where
  "durationConversion lib inp =
     (case (case inp of DBytes t \<Rightarrow> Some t | DString t \<Rightarrow> Some t | _ \<Rightarrow> None) of
        None \<Rightarrow> ((NaN, False), [(LError, ''DURATION conversion metric was not a string'')])
      | Some durationString \<Rightarrow>
          if durationString = ''-1'' then ((NaN, False), [])
          else (case ParseDuration lib durationString of
                  None \<Rightarrow> ((NaN, False), [(LError, ''Failed converting result to metric:'')])
                | Some d \<Rightarrow> ((float64_of_int64 (d sdiv 1000000), True), [])))"

text \<open>
  The body of the second loop of \<open>makeDescMap\<close> for one column. The conversion closures
  capture the variable \<open>columnMapping\<close> of that loop, which the loop declares once (the
  module is on a Go version before 1.22): when a closure runs, after the loop, the variable
  holds the mapping of the column that the second loop visited last, \<open>lastMapping\<close>.
\<close>

definition compileColumn ::
  "golib \<Rightarrow> Version \<Rightarrow> string \<Rightarrow> string list \<Rightarrow> ColumnMapping \<Rightarrow> string \<Rightarrow> ColumnMapping \<Rightarrow> MetricMap" where
  "compileColumn lib pgVersion namespace constLabels lastMapping columnName columnMapping =
     (if (case supportedVersions columnMapping of None \<Rightarrow> False | Some r \<Rightarrow> \<not> r pgVersion)
      then \<lparr>discard = True, vtype = ValueTypeUnset, desc = None,
            conversion = (\<lambda>_. ((NaN, True), []))\<rparr>
      else (case usage columnMapping of
              DISCARD \<Rightarrow> discardedColumn
            | LABEL \<Rightarrow> discardedColumn
            | COUNTER \<Rightarrow>
                \<lparr>discard = False, vtype = CounterValue,
                 desc = Some (NewDesc (namespace @ ''_'' @ columnName) (description columnMapping) constLabels),
                 conversion = dbToFloat64 lib\<rparr>
            | GAUGE \<Rightarrow>
                \<lparr>discard = False, vtype = GaugeValue,
                 desc = Some (NewDesc (namespace @ ''_'' @ columnName) (description columnMapping) constLabels),
                 conversion = dbToFloat64 lib\<rparr>
            | MAPPEDMETRIC \<Rightarrow>
                \<lparr>discard = False, vtype = GaugeValue,
                 desc = Some (NewDesc (namespace @ ''_'' @ columnName) (description columnMapping) constLabels),
                 conversion = mappedConversion (mapping lastMapping)\<rparr>
            | DURATION \<Rightarrow>
                \<lparr>discard = False, vtype = GaugeValue,
                 desc = Some (NewDesc (namespace @ ''_'' @ columnName @ ''_milliseconds'')
                                (description columnMapping) constLabels),
                 conversion = durationConversion lib\<rparr>))"

text \<open>The first loop: the names of the \<open>LABEL\<close> columns, in the order of its walk.\<close>

definition constLabelsOf :: "ColumnMapping gomap \<Rightarrow> string list" where
  "constLabelsOf labelWalk = map fst (filter (\<lambda>entry. usage (snd entry) = LABEL) labelWalk)"

text \<open>
  One namespace: \<open>labelWalk\<close> is the walk of the first loop over the column map and
  \<open>mappings\<close> the walk of the second.
\<close>

definition compileNamespace ::
  "golib \<Rightarrow> Version \<Rightarrow> string \<Rightarrow> ColumnMapping gomap \<Rightarrow> ColumnMapping gomap \<Rightarrow> MetricMapNamespace" where
  "compileNamespace lib pgVersion namespace labelWalk mappings =
     \<lparr>labels = constLabelsOf labelWalk,
      columnMappings =
        fold (\<lambda>entry thisMap.
                thisMap(fst entry \<mapsto>
                  compileColumn lib pgVersion namespace (constLabelsOf labelWalk) (snd (last mappings))
                    (fst entry) (snd entry)))
             mappings Map.empty\<rparr>"

text \<open>
  \<open>makeDescMap\<close>: the catalog is given as the walk of its namespaces, each with the two
  walks of its column map.
\<close>

definition makeDescMap ::
  "golib \<Rightarrow> Version \<Rightarrow> ColumnMapping walks gomap \<Rightarrow> (string \<rightharpoonup> MetricMapNamespace)" where
  "makeDescMap lib pgVersion metricMaps =
     fold (\<lambda>entry metricMap.
             metricMap(fst entry \<mapsto>
               compileNamespace lib pgVersion (fst entry) (fst (snd entry)) (snd (snd entry))))
          metricMaps Map.empty"

section \<open>Scrape engine: one namespace\<close>

text \<open>A sample sent on the channel.\<close>

record Metric =
  metricDesc :: Desc
  metricType :: ValueType
  metricValue :: float64
  labelValues :: "string list"

text \<open>
  \<open>prometheus.MustNewConstMetric\<close> dereferences the descriptor and panics when
  \<open>NewConstMetric\<close> returns an error.
\<close>

definition MustNewConstMetric ::
  "golib \<Rightarrow> Desc option \<Rightarrow> ValueType \<Rightarrow> float64 \<Rightarrow> string list \<Rightarrow> Metric result" where
  "MustNewConstMetric lib d vt val lvs =
     (case d of
        None \<Rightarrow> Panicked ''nil pointer dereference''
      | Some de \<Rightarrow>
          if ConstMetricError lib de lvs then Panicked ''NewConstMetric''
          else Done \<lparr>metricDesc = de, metricType = vt, metricValue = val, labelValues = lvs\<rparr>)"

text \<open>
  What \<open>db.Query\<close> gives: an error, or rows with their column list (\<open>rows.Columns()\<close>, which
  may fail) and, for each \<open>rows.Next()\<close>, what the driver hands to \<open>rows.Scan\<close>. \<open>Scan\<close> fails
  on a driver error and when the number of destinations differs from the number of values.
\<close>

record Rows =
  Columns :: "error + string list"
  Scans :: "(error + dbval list) list"

definition rowScan :: "nat \<Rightarrow> error + dbval list \<Rightarrow> error + dbval list" where
  "rowScan n r =
     (case r of
        Inl e \<Rightarrow> Inl e
      | Inr vals \<Rightarrow> if length vals = n then Inr vals else Inl (LibError ''sql: expected destination arguments in Scan''))"

text \<open>The lookup map for the column indices: a later column of the same name wins.\<close>

definition columnIdxOf :: "string list \<Rightarrow> (string \<rightharpoonup> nat)" where
  "columnIdxOf columnNames = fold (\<lambda>entry m. m(snd entry \<mapsto> fst entry)) (enumerate 0 columnNames) Map.empty"

text \<open>
  The label values of a row. Indexing the map with a missing name gives the zero value
  \<open>0\<close>; indexing the slice \<open>columnData\<close> out of range panics. The \<open>ok\<close> of \<open>dbToString\<close> is
  dropped.
\<close>

fun rowLabels :: "golib \<Rightarrow> string list \<Rightarrow> (string \<rightharpoonup> nat) \<Rightarrow> dbval list \<Rightarrow> string list result" where
  "rowLabels lib [] columnIdx columnData = Done []"
| "rowLabels lib (columnName # rest) columnIdx columnData =
     thenR (goIndex columnData (case columnIdx columnName of None \<Rightarrow> 0 | Some i \<Rightarrow> i))
       (\<lambda>v. thenR (rowLabels lib rest columnIdx columnData)
          (\<lambda>ls. Done (fst (dbToString lib v) # ls)))"

text \<open>
  The body of the loop over the returned columns; the state is the list of non-fatal errors
  and the samples sent so far. The lines logged by \<open>dbToFloat64\<close> are not kept.
\<close>

definition processColumn ::
  "golib \<Rightarrow> string \<Rightarrow> MetricMapNamespace \<Rightarrow> string list \<Rightarrow> dbval list \<Rightarrow> nat \<times> string \<Rightarrow>
   error list \<times> Metric list \<Rightarrow> (error list \<times> Metric list) result" where
  "processColumn lib namespace nsMapping labelVals columnData entry st =
     (case columnMappings nsMapping (snd entry) of
        Some metricMapping \<Rightarrow>
          if discard metricMapping then Done st
          else thenR (goIndex columnData (fst entry))
            (\<lambda>v. case fst (dbToFloat64 lib v) of
               (val, ok) \<Rightarrow>
                 if \<not> ok then Done (fst st @ [ParseColumnFailed namespace (snd entry)], snd st)
                 else thenR (MustNewConstMetric lib (desc metricMapping) (vtype metricMapping) val labelVals)
                        (\<lambda>m. Done (fst st, snd st @ [m])))
      | None \<Rightarrow>
          thenR (goIndex columnData (fst entry))
            (\<lambda>v. case fst (dbToFloat64 lib v) of
               (val, ok) \<Rightarrow>
                 if \<not> ok then Done (fst st @ [UnparseableColumn namespace (snd entry)], snd st)
                 else thenR (MustNewConstMetric lib
                               (Some (NewDesc (namespace @ ''_'' @ snd entry)
                                        (''Unknown metric from '' @ namespace) (labels nsMapping)))
                               UntypedValue val labelVals)
                        (\<lambda>m. Done (fst st, snd st @ [m]))))"

text \<open>
  The loop over the rows. The result is what was sent on the channel and the returned pair
  (non-fatal errors, fatal error); a failing \<open>Scan\<close> returns an empty error list.
\<close>

fun processRows ::
  "golib \<Rightarrow> string \<Rightarrow> MetricMapNamespace \<Rightarrow> string list \<Rightarrow> (error + dbval list) list \<Rightarrow>
   error list \<times> Metric list \<Rightarrow> (Metric list \<times> error list \<times> error option) result" where
  "processRows lib namespace nsMapping columnNames [] st = Done (snd st, fst st, None)"
| "processRows lib namespace nsMapping columnNames (r # rest) st =
     (case rowScan (length columnNames) r of
        Inl e \<Rightarrow> Done (snd st, [], Some (RowsFailed namespace))
      | Inr columnData \<Rightarrow>
          thenR (rowLabels lib (labels nsMapping) (columnIdxOf columnNames) columnData)
            (\<lambda>labelVals.
               thenR (foldResult (processColumn lib namespace nsMapping labelVals columnData)
                        (enumerate 0 columnNames) st)
                 (processRows lib namespace nsMapping columnNames rest)))"

definition queryNamespaceMapping ::
  "golib \<Rightarrow> (string \<Rightarrow> error + Rows) \<Rightarrow> string \<Rightarrow> MetricMapNamespace \<Rightarrow> (string \<rightharpoonup> string) \<Rightarrow>
   (Metric list \<times> error list \<times> error option) result" where
  "queryNamespaceMapping lib db namespace nsMapping queryOverrides =
     (if queryOverrides namespace = Some '''' then Done ([], [], None)
      else (case db (case queryOverrides namespace of
                       None \<Rightarrow> ''SELECT * FROM '' @ namespace @ '';''
                     | Some q \<Rightarrow> q) of
              Inl e \<Rightarrow> Done ([], [], Some (QueryFailed namespace))
            | Inr rows \<Rightarrow>
                (case Columns rows of
                   Inl e \<Rightarrow> Done ([], [], Some (ColumnListFailed namespace))
                 | Inr columnNames \<Rightarrow>
                     processRows lib namespace nsMapping columnNames (Scans rows) ([], []))))"

section \<open>User query loader\<close>

definition stringToColumnUsage :: "string \<Rightarrow> error + ColumnUsage" where
  "stringToColumnUsage s =
     (if s = ''DISCARD'' then Inr DISCARD
      else if s = ''LABEL'' then Inr LABEL
      else if s = ''COUNTER'' then Inr COUNTER
      else if s = ''GAUGE'' then Inr GAUGE
      else if s = ''MAPPEDMETRIC'' then Inr MAPPEDMETRIC
      else if s = ''DURATION'' then Inr DURATION
      else Inl (WrongColumnUsage s))"

text \<open>
  The type assertions \<open>x.(string)\<close>, \<open>x.(map[interface{}]interface{})\<close> and
  \<open>x.([]interface{})\<close>, written without the two-value form: they panic on another type.
\<close>

fun asString :: "yaml \<Rightarrow> string result" where
  "asString (YString s) = Done s"
| "asString v = Panicked ''interface conversion: interface {} is not string''"

fun asMap :: "yaml \<Rightarrow> (yaml \<times> yaml) list result" where
  "asMap (YMap kvs) = Done kvs"
| "asMap v = Panicked ''interface conversion: interface {} is not map[interface {}]interface {}''"

fun asSeq :: "yaml \<Rightarrow> yaml list result" where
  "asSeq (YSeq vs) = Done vs"
| "asSeq v = Panicked ''interface conversion: interface {} is not []interface {}''"

text \<open>The zero value of \<open>ColumnMapping\<close>.\<close>

definition zeroColumnMapping :: ColumnMapping where
  "zeroColumnMapping = \<lparr>usage = DISCARD, description = [], mapping = Map.empty, supportedVersions = None\<rparr>"

text \<open>The loop over the attributes of one column.\<close>

definition attrStep :: "yaml \<times> yaml \<Rightarrow> ColumnMapping \<Rightarrow> ColumnMapping result" where
  "attrStep attr columnMapping =
     thenR (asString (fst attr))
       (\<lambda>attrKey.
          if attrKey = ''usage'' then
            thenR (asString (snd attr))
              (\<lambda>s. case stringToColumnUsage s of
                      Inl err \<Rightarrow> Failed err
                    | Inr u \<Rightarrow> Done (columnMapping\<lparr>usage := u\<rparr>))
          else if attrKey = ''description'' then
            thenR (asString (snd attr)) (\<lambda>s. Done (columnMapping\<lparr>description := s\<rparr>))
          else Done columnMapping)"

text \<open>
  The loop over the entries \<open>n, a\<close> of one element of \<open>metrics\<close>. \<open>metricMaps\<close> is local to
  \<open>addQueries\<close>; \<open>makeDescMap\<close> walks it afterwards, in the orders \<open>RangeOrder\<close> gives.
\<close>

definition columnStep ::
  "string \<Rightarrow> yaml \<times> yaml \<Rightarrow> ColumnMapping gomap gomap \<Rightarrow> ColumnMapping gomap gomap result" where
  "columnStep metric column metricMaps =
     (let metricMaps1 = (case map_of metricMaps metric of
                           None \<Rightarrow> AList.update metric [] metricMaps
                         | Some metricMap \<Rightarrow> metricMaps)
      in thenR (asString (fst column))
           (\<lambda>name. thenR (asMap (snd column))
              (\<lambda>attrs. thenR (foldResult attrStep attrs zeroColumnMapping)
                 (\<lambda>columnMapping.
                    Done (AList.map_entry metric
                            (AList.update name
                               (columnMapping\<lparr>mapping := Map.empty, supportedVersions := None\<rparr>))
                            metricMaps1)))))"

definition metricsStep ::
  "string \<Rightarrow> yaml \<Rightarrow> ColumnMapping gomap gomap \<Rightarrow> ColumnMapping gomap gomap result" where
  "metricsStep metric c metricMaps =
     thenR (asMap c) (\<lambda>column. foldResult (columnStep metric) column metricMaps)"

text \<open>The loop over the keys of one namespace: \<open>query\<close>, \<open>metrics\<close>, anything else is skipped.\<close>

definition specStep ::
  "string \<Rightarrow> yaml \<times> yaml \<Rightarrow> ColumnMapping gomap gomap \<times> (string \<rightharpoonup> string) \<Rightarrow>
   (ColumnMapping gomap gomap \<times> (string \<rightharpoonup> string)) result" where
  "specStep metric spec st =
     thenR (asString (fst spec))
       (\<lambda>key.
          if key = ''query'' then
            thenR (asString (snd spec)) (\<lambda>q. Done (fst st, (snd st)(metric \<mapsto> q)))
          else if key = ''metrics'' then
            thenR (asSeq (snd spec))
              (\<lambda>cs. thenR (foldResult (metricsStep metric) cs (fst st))
                 (\<lambda>metricMaps. Done (metricMaps, snd st)))
          else Done st)"

definition userNamespaceStep ::
  "string \<times> yaml \<Rightarrow> ColumnMapping gomap gomap \<times> (string \<rightharpoonup> string) \<Rightarrow>
   (ColumnMapping gomap gomap \<times> (string \<rightharpoonup> string)) result" where
  "userNamespaceStep entry st =
     thenR (asMap (snd entry)) (\<lambda>specs. foldResult (specStep (fst entry)) specs st)"

text \<open>
  \<open>addQueries\<close> assigns into the two maps of its caller. The result is what the call did
  (\<open>Done ()\<close> is \<open>return nil\<close>) and the two maps as the call leaves them. The two merge
  loops assign every entry of the new map into the old one, which is \<open>++\<close>.
\<close>

definition addQueries ::
  "golib \<Rightarrow> string \<Rightarrow> Version \<Rightarrow> (string \<rightharpoonup> MetricMapNamespace) \<Rightarrow> (string \<rightharpoonup> string) \<Rightarrow>
   unit result \<times> (string \<rightharpoonup> MetricMapNamespace) \<times> (string \<rightharpoonup> string)" where
  "addQueries lib content pgVersion exporterMap queryOverrideMap =
     (case Unmarshal lib content of
        Inl err \<Rightarrow> (Failed err, exporterMap, queryOverrideMap)
      | Inr extra \<Rightarrow>
          (case foldResult userNamespaceStep extra ([], Map.empty) of
             Failed err \<Rightarrow> (Failed err, exporterMap, queryOverrideMap)
           | Panicked p \<Rightarrow> (Panicked p, exporterMap, queryOverrideMap)
           | Done parsed \<Rightarrow>
               (Done (),
                exporterMap ++ makeDescMap lib pgVersion (RangeOrder lib (fst parsed)),
                queryOverrideMap ++ snd parsed)))"

section \<open>Instances for the worked examples\<close>

text \<open>
  An instance of the library and runtime parameters. Each function agrees with the Go
  function it stands for on the inputs of the examples below: short unsigned decimal
  numbers for \<open>strconv.ParseFloat\<close>, an unsigned whole number followed by one unit for
  \<open>time.ParseDuration\<close>, whole numbers for the \<open>%v\<close> rendering, dotted numeric tokens for
  \<open>semver.ParseTolerant\<close>, three documents for \<open>yaml.Unmarshal\<close>, and the check of the number of
  label values for \<open>prometheus.NewConstMetric\<close>. Its runtime walks a map in the order of
  insertion.
\<close>

definition digitsValue :: "string \<Rightarrow> nat" where
  "digitsValue ds = fold (\<lambda>c n. 10 * n + (of_char c - 48)) ds 0"

text \<open>
  The value of the double nearest to the positive fraction \<open>n / d\<close>, ties to even, for a
  fraction in the range of the normal doubles: \<open>e\<close> is the exponent of its leading bit, and
  the fraction scaled by \<open>2^(52 - e)\<close> is rounded to a whole significand of 53 bits.
\<close>

definition nearestDouble :: "int \<Rightarrow> int \<Rightarrow> real" where
  "nearestDouble n d =
     (let e0 = int (bitLength (nat n)) - int (bitLength (nat d));
          e = (if (if 0 \<le> e0 then d * 2 ^ nat e0 \<le> n else d \<le> n * 2 ^ nat (- e0)) then e0 else e0 - 1);
          s = 52 - e
      in if 0 \<le> s then of_int (roundHalfEven (n * 2 ^ nat s) d) / 2 ^ nat s
         else of_int (roundHalfEven n (d * 2 ^ nat (- s))) * 2 ^ nat (- s))"

definition decimalDouble :: "string \<Rightarrow> string \<Rightarrow> float64" where
  "decimalDouble ip fp =
     (if digitsValue (ip @ fp) = 0 then Float 0
      else Float (nearestDouble (int (digitsValue (ip @ fp))) (10 ^ length fp)))"

definition exampleParseFloat :: "string \<Rightarrow> float64 option" where
  "exampleParseFloat s =
     (let ip = takeWhile isDigit s; rest = dropWhile isDigit s in
      if ip = [] then None
      else if rest = [] then Some (decimalDouble ip [])
      else if hd rest = CHR ''.'' \<and> tl rest \<noteq> [] \<and> list_all isDigit (tl rest)
      then Some (decimalDouble ip (tl rest))
      else None)"

definition unitNanoseconds :: "string \<Rightarrow> int option" where
  "unitNanoseconds u =
     (if u = ''ns'' then Some 1 else if u = ''us'' then Some 1000 else if u = ''ms'' then Some 1000000
      else if u = ''s'' then Some 1000000000 else if u = ''m'' then Some 60000000000
      else if u = ''h'' then Some 3600000000000 else None)"

definition exampleParseDuration :: "string \<Rightarrow> int option" where
  "exampleParseDuration s =
     (let ip = takeWhile isDigit s; u = dropWhile isDigit s in
      if ip = [] then None
      else (case unitNanoseconds u of None \<Rightarrow> None | Some k \<Rightarrow> Some (int (digitsValue ip) * k)))"

definition exampleFormatFloat :: "float64 \<Rightarrow> string" where
  "exampleFormatFloat f =
     (case f of
        NaN \<Rightarrow> ''NaN''
      | PosInf \<Rightarrow> ''+Inf''
      | NegInf \<Rightarrow> ''-Inf''
      | NegZero \<Rightarrow> ''-0''
      | Float r \<Rightarrow> showInt \<lfloor>r\<rfloor>)"

definition mkVersion :: "nat \<Rightarrow> nat \<Rightarrow> nat \<Rightarrow> Version" where
  "mkVersion a b c = \<lparr>Major = a, Minor = b, Patch = c, Pre = [], Build = []\<rparr>"

fun splitDots :: "string \<Rightarrow> string list" where
  "splitDots [] = [[]]"
| "splitDots (c # cs) =
     (if c = CHR ''.'' then [] # splitDots cs
      else (case splitDots cs of p # ps \<Rightarrow> (c # p) # ps | [] \<Rightarrow> [[c]]))"

definition exampleParseTolerant :: "string \<Rightarrow> error + Version" where
  "exampleParseTolerant tok =
     (case map digitsValue (filter (\<lambda>p. p \<noteq> [] \<and> list_all isDigit p) (splitDots tok)) of
        [a] \<Rightarrow> if length (splitDots tok) = 1 then Inr (mkVersion a 0 0) else Inl (LibError ''semver'')
      | [a, b] \<Rightarrow> if length (splitDots tok) = 2 then Inr (mkVersion a b 0) else Inl (LibError ''semver'')
      | [a, b, c] \<Rightarrow> if length (splitDots tok) = 3 then Inr (mkVersion a b c) else Inl (LibError ''semver'')
      | _ \<Rightarrow> Inl (LibError ''semver''))"

definition bogusDocument :: string where
  "bogusDocument = ''pg_custom: {query: SELECT 1, metrics: [{x: {usage: BOGUS, description: d}}]}''"

definition scalarDocument :: string where
  "scalarDocument = ''pg_custom: 5''"

definition goodDocument :: string where
  "goodDocument = ''pg_custom: {query: SELECT 1, metrics: [{x: {usage: COUNTER, description: d}}]}''"

definition userMetrics :: "string \<Rightarrow> yaml" where
  "userMetrics u =
     YMap [(YString ''query'', YString ''SELECT 1''),
           (YString ''metrics'',
            YSeq [YMap [(YString ''x'',
                         YMap [(YString ''usage'', YString u), (YString ''description'', YString ''d'')])]])]"

definition exampleUnmarshal :: "string \<Rightarrow> error + (string \<times> yaml) list" where
  "exampleUnmarshal content =
     (if content = bogusDocument then Inr [(''pg_custom'', userMetrics ''BOGUS'')]
      else if content = goodDocument then Inr [(''pg_custom'', userMetrics ''COUNTER'')]
      else if content = scalarDocument then Inr [(''pg_custom'', YInt 5)]
      else Inl (LibError ''yaml''))"

definition exampleLib :: golib where
  "exampleLib =
     \<lparr>ParseFloat = exampleParseFloat, ParseDuration = exampleParseDuration,
      FormatFloat = exampleFormatFloat, ParseTolerant = exampleParseTolerant,
      Unmarshal = exampleUnmarshal,
      ConstMetricError = (\<lambda>d lvs. length (variableLabels d) \<noteq> length lvs),
      RangeOrder = map (\<lambda>entry. (fst entry, snd entry, snd entry))\<rparr>"

text \<open>The range \<open>>=lo\<close> on release versions.\<close>

definition versionGE :: "Version \<Rightarrow> Range" where
  "versionGE lo v =
     (Major lo < Major v \<or> (Major lo = Major v \<and>
        (Minor lo < Minor v \<or> (Minor lo = Minor v \<and> Patch lo \<le> Patch v))))"

definition column :: "ColumnUsage \<Rightarrow> string \<Rightarrow> Range option \<Rightarrow> ColumnMapping" where
  "column u d r = \<lparr>usage = u, description = d, mapping = Map.empty, supportedVersions = r\<rparr>"

text \<open>Three entries of \<open>builtinMetricMaps["pg_stat_replication"]\<close> and \<open>"pg_locks"\<close> in two walks.\<close>

definition replicationColumns :: "ColumnMapping gomap" where
  "replicationColumns =
     [(''client_addr'', column LABEL ''IP address of the client connected to this WAL sender'' None),
      (''pg_wal_lsn_diff'',
       column GAUGE ''Lag in bytes between master and slave'' (Some (versionGE (mkVersion 10 0 0)))),
      (''pg_current_xlog_location'', column DISCARD ''pg_current_xlog_location'' None)]"

definition locksColumns :: "ColumnMapping gomap" where
  "locksColumns =
     [(''datname'', column LABEL ''Name of this database'' None),
      (''mode'', column LABEL ''Type of Lock'' None),
      (''count'', column GAUGE ''Number of locks'' None)]"

definition locksColumnsOtherWalk :: "ColumnMapping gomap" where
  "locksColumnsOtherWalk =
     [(''mode'', column LABEL ''Type of Lock'' None),
      (''datname'', column LABEL ''Name of this database'' None),
      (''count'', column GAUGE ''Number of locks'' None)]"

text \<open>
  Override candidates: three whose ranges overlap, and the single candidate \<open>>=10.0.0\<close>; the
  statements are shortened.
\<close>

definition overlappingOverrides :: "OverrideQuery list gomap" where
  "overlappingOverrides =
     [(''pg_stat_replication'',
       [\<lparr>versionRange = versionGE (mkVersion 10 0 0), query = ''SELECT 10''\<rparr>,
        \<lparr>versionRange = versionGE (mkVersion 9 2 0), query = ''SELECT 92''\<rparr>,
        \<lparr>versionRange = versionGE (mkVersion 9 0 0), query = ''SELECT 90''\<rparr>])]"

definition gatedOverrides :: "OverrideQuery list gomap" where
  "gatedOverrides =
     [(''pg_stat_replication'',
       [\<lparr>versionRange = versionGE (mkVersion 10 0 0), query = ''SELECT * FROM pg_stat_replication''\<rparr>])]"

text \<open>
  Two walks of one Go map hold the same entries, each key once. Two compilations of one
  catalog walk the same namespaces, and for each namespace their four walks (two in each
  compilation) are walks of one column map.
\<close>

definition sameGoMap :: "'v gomap \<Rightarrow> 'v gomap \<Rightarrow> bool" where
  "sameGoMap xs ys = (distinct (map fst xs) \<and> distinct (map fst ys) \<and> set xs = set ys)"

definition sameCatalog :: "ColumnMapping walks gomap \<Rightarrow> ColumnMapping walks gomap \<Rightarrow> bool" where
  "sameCatalog c1 c2 =
     (distinct (map fst c1) \<and> distinct (map fst c2) \<and> set (map fst c1) = set (map fst c2)
      \<and> (\<forall>e \<in> set c1 \<union> set c2. sameGoMap (fst (snd e)) (snd (snd e)))
      \<and> (\<forall>e1 \<in> set c1. \<forall>e2 \<in> set c2.
            fst e1 = fst e2 \<longrightarrow> sameGoMap (snd (snd e1)) (snd (snd e2))))"

definition durationCatalog :: "ColumnMapping walks gomap" where
  "durationCatalog =
     [(''pg_custom'',
       [(''lag'', column DURATION ''Replication lag'' None)],
       [(''lag'', column DURATION ''Replication lag'' None)])]"

text \<open>
  The token of the specification, written directly: the digits at the start of a text, then
  at most two groups of a dot followed by digits, each as long as possible.
\<close>

definition dotPart :: "string \<Rightarrow> string" where
  "dotPart x =
     (case x of
        [] \<Rightarrow> []
      | c # cs \<Rightarrow> if c = CHR ''.'' \<and> cs \<noteq> [] \<and> isDigit (hd cs) then c # takeWhile isDigit cs else [])"

definition specVersionToken :: "string \<Rightarrow> string" where
  "specVersionToken r =
     (let major = takeWhile isDigit r;
          x1 = dropWhile isDigit r;
          minor = dotPart x1;
          x2 = drop (length minor) x1;
          patch = dotPart x2
      in major @ minor @ patch)"

text \<open>
  A decoded document has the expected shape when every type assertion of \<open>addQueries\<close>
  on it succeeds, and holds an unknown usage when some \<open>usage\<close> attribute of some column is
  a string other than the six names.
\<close>

definition knownUsage :: "string \<Rightarrow> bool" where
  "knownUsage s =
     (s \<in> set [''DISCARD'', ''LABEL'', ''COUNTER'', ''GAUGE'', ''MAPPEDMETRIC'', ''DURATION''])"

definition usageError :: "error \<Rightarrow> bool" where
  "usageError e = (case e of WrongColumnUsage s \<Rightarrow> \<not> knownUsage s | _ \<Rightarrow> False)"

fun isYString :: "yaml \<Rightarrow> bool" where
  "isYString (YString s) = True"
| "isYString v = False"

definition attrShaped :: "yaml \<times> yaml \<Rightarrow> bool" where
  "attrShaped attr =
     (case fst attr of
        YString key \<Rightarrow> if key = ''usage'' \<or> key = ''description'' then isYString (snd attr) else True
      | _ \<Rightarrow> False)"

definition attrUnknown :: "yaml \<times> yaml \<Rightarrow> bool" where
  "attrUnknown attr =
     (fst attr = YString ''usage'' \<and> (case snd attr of YString s \<Rightarrow> \<not> knownUsage s | _ \<Rightarrow> False))"

definition columnShaped :: "yaml \<times> yaml \<Rightarrow> bool" where
  "columnShaped col =
     (isYString (fst col) \<and> (case snd col of YMap attrs \<Rightarrow> list_all attrShaped attrs | _ \<Rightarrow> False))"

definition columnUnknown :: "yaml \<times> yaml \<Rightarrow> bool" where
  "columnUnknown col = (case snd col of YMap attrs \<Rightarrow> list_ex attrUnknown attrs | _ \<Rightarrow> False)"

definition metricShaped :: "yaml \<Rightarrow> bool" where
  "metricShaped c = (case c of YMap cols \<Rightarrow> list_all columnShaped cols | _ \<Rightarrow> False)"

definition metricUnknown :: "yaml \<Rightarrow> bool" where
  "metricUnknown c = (case c of YMap cols \<Rightarrow> list_ex columnUnknown cols | _ \<Rightarrow> False)"

definition specShaped :: "yaml \<times> yaml \<Rightarrow> bool" where
  "specShaped spec =
     (case fst spec of
        YString key \<Rightarrow>
          if key = ''query'' then isYString (snd spec)
          else if key = ''metrics'' then
            (case snd spec of YSeq cs \<Rightarrow> list_all metricShaped cs | _ \<Rightarrow> False)
          else True
      | _ \<Rightarrow> False)"

definition specUnknown :: "yaml \<times> yaml \<Rightarrow> bool" where
  "specUnknown spec =
     (fst spec = YString ''metrics'' \<and> (case snd spec of YSeq cs \<Rightarrow> list_ex metricUnknown cs | _ \<Rightarrow> False))"

definition namespaceShaped :: "string \<times> yaml \<Rightarrow> bool" where
  "namespaceShaped entry = (case snd entry of YMap specs \<Rightarrow> list_all specShaped specs | _ \<Rightarrow> False)"

definition namespaceUnknown :: "string \<times> yaml \<Rightarrow> bool" where
  "namespaceUnknown entry = (case snd entry of YMap specs \<Rightarrow> list_ex specUnknown specs | _ \<Rightarrow> False)"

definition wellShaped :: "(string \<times> yaml) list \<Rightarrow> bool" where
  "wellShaped extra = list_all namespaceShaped extra"

definition hasUnknownUsage :: "(string \<times> yaml) list \<Rightarrow> bool" where
  "hasUnknownUsage extra = list_ex namespaceUnknown extra"







section \<open>Assignments in a loop over a Go map\<close>

lemma fold_assign_notin:
  "k \<notin> fst ` set xs \<Longrightarrow> fold (\<lambda>e m. m(fst e \<mapsto> g e)) xs m0 k = m0 k"
  by (induction xs arbitrary: m0) auto

lemma fold_assign_in:
  "distinct (map fst xs) \<Longrightarrow> e \<in> set xs \<Longrightarrow> fold (\<lambda>e m. m(fst e \<mapsto> g e)) xs m0 (fst e) = Some (g e)"
proof (induction xs arbitrary: m0)
  case Nil
  then show ?case by simp
next
  case (Cons x xs)
  have step: "fold (\<lambda>e m. m(fst e \<mapsto> g e)) (x # xs) m0 k
              = fold (\<lambda>e m. m(fst e \<mapsto> g e)) xs (m0(fst x \<mapsto> g x)) k" for k
    by (simp del: fun_upd_apply)
  show ?case
  proof (cases "e = x")
    case True
    with Cons.prems have "fst x \<notin> fst ` set xs" by auto
    then have "fold (\<lambda>e m. m(fst e \<mapsto> g e)) xs (m0(fst x \<mapsto> g x)) (fst x) = (m0(fst x \<mapsto> g x)) (fst x)"
      by (rule fold_assign_notin)
    also have "\<dots> = Some (g x)" by simp
    finally show ?thesis unfolding True step .
  next
    case False
    with Cons.prems have "distinct (map fst xs)" and "e \<in> set xs" by auto
    then have "fold (\<lambda>e m. m(fst e \<mapsto> g e)) xs (m0(fst x \<mapsto> g x)) (fst e) = Some (g e)"
      by (rule Cons.IH)
    then show ?thesis unfolding step .
  qed
qed

lemma fold_assign_dom:
  "dom (fold (\<lambda>e m. m(fst e \<mapsto> g e)) xs m0) = dom m0 \<union> fst ` set xs"
  by (induction xs arbitrary: m0) auto

lemma makeDescMap_lookup:
  assumes "distinct (map fst metricMaps)" and "(namespace, labelWalk, mappings) \<in> set metricMaps"
  shows "makeDescMap lib pgVersion metricMaps namespace =
         Some (compileNamespace lib pgVersion namespace labelWalk mappings)"
  using fold_assign_in [OF assms,
      of "\<lambda>e. compileNamespace lib pgVersion (fst e) (fst (snd e)) (snd (snd e))" Map.empty]
  by (simp add: makeDescMap_def)

lemma compileNamespace_lookup:
  assumes "distinct (map fst mappings)" and "(columnName, columnMapping) \<in> set mappings"
  shows "columnMappings (compileNamespace lib pgVersion namespace labelWalk mappings) columnName =
         Some (compileColumn lib pgVersion namespace (constLabelsOf labelWalk) (snd (last mappings))
                 columnName columnMapping)"
  using fold_assign_in [OF assms,
      of "\<lambda>e. compileColumn lib pgVersion namespace (constLabelsOf labelWalk) (snd (last mappings)) (fst e) (snd e)"
         Map.empty]
  by (simp add: compileNamespace_def)

text \<open>
  The double nearest to 3.14 is \<open>7070651414971679 / 2^51\<close>: it lies within half a unit in
  the last place, \<open>2^-52\<close>, of 3.14.
\<close>

lemma nearestDouble_pi: "\<bar>nearestDouble 314 100 - 314 / 100\<bar> \<le> 1 / 2 ^ 52"
  by (simp add: nearestDouble_def roundHalfEven_def bitLength.simps)

lemma exampleParseFloat_pi:
  "exampleParseFloat ''3.14'' = Some (Float (7070651414971679 / 2251799813685248))"
  by (simp add: exampleParseFloat_def decimalDouble_def nearestDouble_def roundHalfEven_def
        isDigit_def digitsValue_def bitLength.simps)

lemma exampleParseFloat_abc: "exampleParseFloat ''abc'' = None"
  by (simp add: exampleParseFloat_def isDigit_def)

section \<open>Version-gated columns are compiled as discarded\<close>

text \<open>
  Claim C1. In a catalog (a Go map of Go maps, so with distinct namespace names and distinct
  column names), a column whose \<open>supportedVersions\<close> is present and rejects the target
  version is present in the map compiled by \<open>makeDescMap\<close>, with \<open>discard = true\<close> and a
  conversion that returns (NaN, true) on every input, whatever its usage.
\<close>

theorem makeDescMap_version_discard:
  assumes "distinct (map fst metricMaps)" and "(namespace, labelWalk, mappings) \<in> set metricMaps"
    and "distinct (map fst mappings)" and "(columnName, columnMapping) \<in> set mappings"
    and "supportedVersions columnMapping = Some r" and "\<not> r pgVersion"
  shows "\<exists>ns m. makeDescMap lib pgVersion metricMaps namespace = Some ns
           \<and> columnMappings ns columnName = Some m
           \<and> discard m \<and> (\<forall>v. fst (conversion m v) = (NaN, True))"
  using makeDescMap_lookup [OF assms(1,2)] compileNamespace_lookup [OF assms(3,4)] assms(5,6)
  by (simp add: compileColumn_def)

text \<open>The gauge \<open>pg_wal_lsn_diff\<close>, gated to \<open>>=10.0.0\<close>, compiled for version 9.6.2.\<close>

theorem makeDescMap_version_discard_witness:
  "\<exists>ns m. makeDescMap exampleLib (mkVersion 9 6 2)
             [(''pg_stat_replication'', replicationColumns, replicationColumns)]
             ''pg_stat_replication'' = Some ns
     \<and> columnMappings ns ''pg_wal_lsn_diff'' = Some m
     \<and> discard m \<and> (\<forall>v. fst (conversion m v) = (NaN, True))"
  by (rule makeDescMap_version_discard
        [where mappings = replicationColumns and labelWalk = replicationColumns
           and columnMapping = "column GAUGE ''Lag in bytes between master and slave'' (Some (versionGE (mkVersion 10 0 0)))"
           and r = "versionGE (mkVersion 10 0 0)"])
     (simp_all add: replicationColumns_def column_def versionGE_def mkVersion_def)

section \<open>Numeric coercion\<close>

lemma bitLength_bound: "n < 2 ^ bitLength n"
proof (induction n rule: bitLength.induct)
  case (1 n)
  show ?case
  proof (cases "n = 0")
    case True
    then show ?thesis by (simp add: bitLength.simps)
  next
    case False
    with 1 have "n div 2 < 2 ^ bitLength (n div 2)" by simp
    then have "n < 2 * 2 ^ bitLength (n div 2)" by linarith
    with False show ?thesis by (simp add: bitLength.simps [of n])
  qed
qed

lemma bitLength_le: "n < 2 ^ k \<Longrightarrow> bitLength n \<le> k"
proof (induction n arbitrary: k rule: bitLength.induct)
  case (1 n)
  show ?case
  proof (cases "n = 0")
    case True
    then show ?thesis by (simp add: bitLength.simps)
  next
    case False
    with "1.prems" obtain j where k: "k = Suc j" by (cases k) auto
    with "1.prems" have "n div 2 < 2 ^ j" by auto
    with 1 False have "bitLength (n div 2) \<le> j" by simp
    with False k show ?thesis by (simp add: bitLength.simps [of n])
  qed
qed

lemma bitLength_binade:
  assumes "2 ^ (52 + k) \<le> n" and "n < 2 ^ (53 + k)"
  shows "bitLength n = 53 + k"
proof -
  from assms(2) have "bitLength n \<le> 53 + k" by (rule bitLength_le)
  moreover have "(2::nat) ^ (52 + k) < 2 ^ bitLength n"
    using assms(1) bitLength_bound [of n] by linarith
  then have "52 + k < bitLength n" by simp
  ultimately show ?thesis by simp
qed

lemma roundHalfEven_near:
  assumes "0 < d"
  shows "2 * \<bar>roundHalfEven n d * d - n\<bar> \<le> d"
    and "2 * \<bar>roundHalfEven n d * d - n\<bar> = d \<Longrightarrow> even (roundHalfEven n d)"
proof -
  define q where "q = n div d"
  define r where "r = n mod d"
  have n: "n = q * d + r" by (simp add: q_def r_def)
  have r: "0 \<le> r" "r < d" using assms by (simp_all add: r_def)
  have up: "(q + 1) * d - n = d - r" by (simp add: n algebra_simps)
  have down: "q * d - n = - r" by (simp add: n)
  show "2 * \<bar>roundHalfEven n d * d - n\<bar> \<le> d"
    unfolding roundHalfEven_def q_def [symmetric] r_def [symmetric]
    using r by (auto simp: up down)
  show "2 * \<bar>roundHalfEven n d * d - n\<bar> = d \<Longrightarrow> even (roundHalfEven n d)"
    unfolding roundHalfEven_def q_def [symmetric] r_def [symmetric]
    using r by (auto simp: up down split: if_splits)
qed

lemma roundInt53_exact: "\<bar>i\<bar> \<le> 2 ^ 53 \<Longrightarrow> roundInt53 i = i"
proof -
  assume a: "\<bar>i\<bar> \<le> 2 ^ 53"
  show ?thesis
  proof (cases "\<bar>i\<bar> = 2 ^ 53")
    case True
    then have "i = 9007199254740992 \<or> i = - 9007199254740992" by auto
    moreover have "roundInt53 9007199254740992 = 9007199254740992"
      by (simp add: roundInt53_def roundHalfEven_def bitLength.simps)
    moreover have "roundInt53 (- 9007199254740992) = - 9007199254740992"
      by (simp add: roundInt53_def roundHalfEven_def bitLength.simps)
    ultimately show ?thesis by (elim disjE) simp_all
  next
    case False
    with a have "nat \<bar>i\<bar> < 2 ^ 53" by (simp add: nat_less_iff)
    then have "bitLength (nat \<bar>i\<bar>) \<le> 53" by (rule bitLength_le)
    then have "bitLength (nat \<bar>i\<bar>) - 53 = 0" by simp
    then show ?thesis by (simp add: roundInt53_def roundHalfEven_def sgn_if)
  qed
qed

lemma roundInt53_nearest:
  assumes "2 ^ (52 + k) \<le> \<bar>i\<bar>" and "\<bar>i\<bar> < 2 ^ (53 + k)"
  shows "2 ^ k dvd roundInt53 i"
    and "2 * \<bar>roundInt53 i - i\<bar> \<le> 2 ^ k"
    and "2 * \<bar>roundInt53 i - i\<bar> = 2 ^ k \<Longrightarrow> even (roundInt53 i div 2 ^ k)"
proof -
  have "2 ^ (52 + k) \<le> nat \<bar>i\<bar>" using assms(1) by (simp add: le_nat_iff)
  moreover have "nat \<bar>i\<bar> < 2 ^ (53 + k)" using assms(2) by (simp add: nat_less_iff)
  ultimately have "bitLength (nat \<bar>i\<bar>) = 53 + k" by (rule bitLength_binade)
  then have j: "roundInt53 i = sgn i * (roundHalfEven \<bar>i\<bar> (2 ^ k) * 2 ^ k)"
    by (simp add: roundInt53_def)
  define q where "q = roundHalfEven \<bar>i\<bar> (2 ^ k)"
  have near: "2 * \<bar>q * 2 ^ k - \<bar>i\<bar>\<bar> \<le> 2 ^ k"
    and tie: "2 * \<bar>q * 2 ^ k - \<bar>i\<bar>\<bar> = 2 ^ k \<Longrightarrow> even q"
    unfolding q_def by (rule roundHalfEven_near, simp)+
  from assms(1) have nz: "i \<noteq> 0" by auto
  have j': "roundInt53 i = sgn i * (q * 2 ^ k)" by (simp add: j q_def)
  have d: "\<bar>roundInt53 i - i\<bar> = \<bar>q * 2 ^ k - \<bar>i\<bar>\<bar>"
  proof (cases "i < 0")
    case True
    then have "roundInt53 i - i = - (q * 2 ^ k - \<bar>i\<bar>)" by (simp add: j')
    then show ?thesis by simp
  next
    case False
    with nz have "roundInt53 i - i = q * 2 ^ k - \<bar>i\<bar>" by (simp add: j')
    then show ?thesis by simp
  qed
  show "2 ^ k dvd roundInt53 i" by (simp add: j')
  show "2 * \<bar>roundInt53 i - i\<bar> \<le> 2 ^ k" using near by (simp add: d)
  have "roundInt53 i div 2 ^ k = sgn i * q"
    by (simp add: j')
  moreover assume "2 * \<bar>roundInt53 i - i\<bar> = 2 ^ k"
  then have "even q" using tie by (simp add: d)
  ultimately show "even (roundInt53 i div 2 ^ k)" by simp
qed

text \<open>
  Claim C5. \<open>dbToFloat64\<close> returns: for a 64-bit integer its float value and true, which is
  the integer itself up to \<open>2^53\<close> in magnitude and, for an integer of \<open>53 + k\<close> bits, the
  nearest multiple of \<open>2^k\<close>, the even one of two equally near; for a timestamp the same
  conversion of its Unix seconds and true; for a float itself and true; for a byte string
  or a string that \<open>strconv.ParseFloat\<close> accepts the parsed value and true, and for one it
  rejects (NaN, false); for null (NaN, true); for any other value (a \<open>bool\<close>) (NaN, false).
\<close>

theorem dbToFloat64_coercion:
  "(\<bar>i\<bar> \<le> 2 ^ 53 \<longrightarrow>
      fst (dbToFloat64 lib (DInt64 i)) = (Float (of_int i), True)
      \<and> fst (dbToFloat64 lib (DTime i)) = (Float (of_int i), True))
   \<and> (2 ^ (52 + k) \<le> \<bar>i\<bar> \<and> \<bar>i\<bar> < 2 ^ (53 + k) \<longrightarrow>
        (\<exists>j. fst (dbToFloat64 lib (DInt64 i)) = (Float (of_int j), True)
            \<and> fst (dbToFloat64 lib (DTime i)) = (Float (of_int j), True)
            \<and> 2 ^ k dvd j \<and> 2 * \<bar>j - i\<bar> \<le> 2 ^ k
            \<and> (2 * \<bar>j - i\<bar> = 2 ^ k \<longrightarrow> even (j div 2 ^ k))))
   \<and> fst (dbToFloat64 lib (DFloat64 f)) = (f, True)
   \<and> (ParseFloat lib s = Some x \<longrightarrow>
        fst (dbToFloat64 lib (DBytes s)) = (x, True) \<and> fst (dbToFloat64 lib (DString s)) = (x, True))
   \<and> (ParseFloat lib s = None \<longrightarrow>
        fst (dbToFloat64 lib (DBytes s)) = (NaN, False) \<and> fst (dbToFloat64 lib (DString s)) = (NaN, False))
   \<and> fst (dbToFloat64 lib DNil) = (NaN, True)
   \<and> fst (dbToFloat64 lib (DBool b)) = (NaN, False)"
proof -
  have exact: "\<bar>i\<bar> \<le> 2 ^ 53 \<longrightarrow>
      fst (dbToFloat64 lib (DInt64 i)) = (Float (of_int i), True)
      \<and> fst (dbToFloat64 lib (DTime i)) = (Float (of_int i), True)"
    by (simp add: float64_of_int64_def roundInt53_exact)
  have near: "2 ^ (52 + k) \<le> \<bar>i\<bar> \<and> \<bar>i\<bar> < 2 ^ (53 + k) \<longrightarrow>
        (\<exists>j. fst (dbToFloat64 lib (DInt64 i)) = (Float (of_int j), True)
            \<and> fst (dbToFloat64 lib (DTime i)) = (Float (of_int j), True)
            \<and> 2 ^ k dvd j \<and> 2 * \<bar>j - i\<bar> \<le> 2 ^ k
            \<and> (2 * \<bar>j - i\<bar> = 2 ^ k \<longrightarrow> even (j div 2 ^ k)))"
  proof
    assume a: "2 ^ (52 + k) \<le> \<bar>i\<bar> \<and> \<bar>i\<bar> < 2 ^ (53 + k)"
    then have "2 ^ k dvd roundInt53 i" and "2 * \<bar>roundInt53 i - i\<bar> \<le> 2 ^ k"
      and "2 * \<bar>roundInt53 i - i\<bar> = 2 ^ k \<longrightarrow> even (roundInt53 i div 2 ^ k)"
      using roundInt53_nearest [of k i] by blast+
    then show "\<exists>j. fst (dbToFloat64 lib (DInt64 i)) = (Float (of_int j), True)
            \<and> fst (dbToFloat64 lib (DTime i)) = (Float (of_int j), True)
            \<and> 2 ^ k dvd j \<and> 2 * \<bar>j - i\<bar> \<le> 2 ^ k
            \<and> (2 * \<bar>j - i\<bar> = 2 ^ k \<longrightarrow> even (j div 2 ^ k))"
      by (intro exI [of _ "roundInt53 i"]) (simp add: float64_of_int64_def)
  qed
  from exact near show ?thesis by simp
qed

text \<open>
  Integers and a timestamp below \<open>2^53\<close>; \<open>2^53 + 1\<close> and \<open>2^53 + 3\<close>, each halfway between two
  doubles; an infinity; the byte strings \<open>3.14\<close> and \<open>abc\<close>; null; a boolean.
\<close>

theorem dbToFloat64_coercion_witness:
  "fst (dbToFloat64 exampleLib (DInt64 5)) = (Float 5, True)
   \<and> fst (dbToFloat64 exampleLib (DInt64 (- 42))) = (Float (- 42), True)
   \<and> fst (dbToFloat64 exampleLib (DTime 1700000000)) = (Float 1700000000, True)
   \<and> fst (dbToFloat64 exampleLib (DInt64 9007199254740993)) = (Float 9007199254740992, True)
   \<and> fst (dbToFloat64 exampleLib (DInt64 9007199254740995)) = (Float 9007199254740996, True)
   \<and> fst (dbToFloat64 exampleLib (DFloat64 PosInf)) = (PosInf, True)
   \<and> fst (dbToFloat64 exampleLib (DBytes ''3.14'')) = (Float (7070651414971679 / 2251799813685248), True)
   \<and> fst (dbToFloat64 exampleLib (DBytes ''abc'')) = (NaN, False)
   \<and> fst (dbToFloat64 exampleLib DNil) = (NaN, True)
   \<and> fst (dbToFloat64 exampleLib (DBool True)) = (NaN, False)"
proof -
  have pi: "ParseFloat exampleLib ''3.14'' = Some (Float (7070651414971679 / 2251799813685248))"
    and abc: "ParseFloat exampleLib ''abc'' = None"
    by (simp_all add: exampleLib_def exampleParseFloat_pi exampleParseFloat_abc)
  have "fst (dbToFloat64 exampleLib (DInt64 5)) = (Float 5, True)"
    using dbToFloat64_coercion [of 5 exampleLib] by simp
  moreover have "fst (dbToFloat64 exampleLib (DInt64 (- 42))) = (Float (- 42), True)"
    using dbToFloat64_coercion [of "- 42" exampleLib] by simp
  moreover have "fst (dbToFloat64 exampleLib (DTime 1700000000)) = (Float 1700000000, True)"
    using dbToFloat64_coercion [of 1700000000 exampleLib] by simp
  moreover have "fst (dbToFloat64 exampleLib (DInt64 9007199254740993)) = (Float 9007199254740992, True)"
    by (simp add: float64_of_int64_def roundInt53_def roundHalfEven_def bitLength.simps)
  moreover have "fst (dbToFloat64 exampleLib (DInt64 9007199254740995)) = (Float 9007199254740996, True)"
    by (simp add: float64_of_int64_def roundInt53_def roundHalfEven_def bitLength.simps)
  moreover have "fst (dbToFloat64 exampleLib (DBytes ''3.14'')) = (Float (7070651414971679 / 2251799813685248), True)"
    using dbToFloat64_coercion [of _ exampleLib _ _ "''3.14''" "Float (7070651414971679 / 2251799813685248)"] pi
    by blast
  moreover have "fst (dbToFloat64 exampleLib (DBytes ''abc'')) = (NaN, False)"
    using dbToFloat64_coercion [of _ exampleLib _ _ "''abc''"] abc by blast
  moreover have "fst (dbToFloat64 exampleLib (DFloat64 PosInf)) = (PosInf, True)"
    and "fst (dbToFloat64 exampleLib DNil) = (NaN, True)"
    and "fst (dbToFloat64 exampleLib (DBool True)) = (NaN, False)"
    using dbToFloat64_coercion [of _ exampleLib _ PosInf _ _ True] by blast+
  ultimately show ?thesis by blast
qed

section \<open>Override resolution\<close>

lemma overrideStep_assign:
  "overrideStep pgVersion =
     (\<lambda>e m. m(fst e \<mapsto> (case firstMatch pgVersion (snd e) of Some q \<Rightarrow> q | None \<Rightarrow> '''')))"
  by (intro ext) (simp add: overrideStep_def split: option.splits)

lemma makeQueryOverrideMap_lookup:
  assumes "distinct (map fst queryOverrides)" and "(name, overrideDef) \<in> set queryOverrides"
  shows "makeQueryOverrideMap pgVersion queryOverrides name =
         Some (case firstMatch pgVersion overrideDef of Some q \<Rightarrow> q | None \<Rightarrow> '''')"
  using fold_assign_in [OF assms,
      of "\<lambda>e. case firstMatch pgVersion (snd e) of Some q \<Rightarrow> q | None \<Rightarrow> ''''" Map.empty]
  by (simp add: makeQueryOverrideMap_def overrideStep_assign)

lemma firstMatch_none:
  "(\<forall>q \<in> set overrideDef. \<not> versionRange q pgVersion) \<Longrightarrow> firstMatch pgVersion overrideDef = None"
  by (induction overrideDef) auto

lemma firstMatch_first:
  "(\<forall>p \<in> set pre. \<not> versionRange p pgVersion) \<Longrightarrow> versionRange q pgVersion \<Longrightarrow>
   firstMatch pgVersion (pre @ q # post) = Some (query q)"
  by (induction pre) auto

text \<open>
  Claim C4. A namespace with override candidates none of whose ranges accepts the target
  version is mapped by \<open>makeQueryOverrideMap\<close> to the empty string; and for a namespace whose
  effective override is present and empty, \<open>queryNamespaceMapping\<close> sends no sample and
  returns no non-fatal error and no fatal error.
\<close>

theorem disabled_namespace_no_samples:
  "(distinct (map fst queryOverrides) \<and> (name, overrideDef) \<in> set queryOverrides
      \<and> (\<forall>q \<in> set overrideDef. \<not> versionRange q pgVersion)
    \<longrightarrow> makeQueryOverrideMap pgVersion queryOverrides name = Some '''')
   \<and> (effectiveOverrides namespace = Some ''''
    \<longrightarrow> queryNamespaceMapping lib db namespace nsMapping effectiveOverrides = Done ([], [], None))"
  by (auto simp: makeQueryOverrideMap_lookup firstMatch_none queryNamespaceMapping_def)

text \<open>A namespace whose only candidate has the range \<open>>=10.0.0\<close>, resolved for version 9.2.0.\<close>

theorem disabled_namespace_no_samples_witness:
  "makeQueryOverrideMap (mkVersion 9 2 0) gatedOverrides ''pg_stat_replication'' = Some ''''
   \<and> queryNamespaceMapping exampleLib (\<lambda>q. Inl (LibError ''no connection'')) ''pg_stat_replication''
        (compileNamespace exampleLib (mkVersion 9 2 0) ''pg_stat_replication'' replicationColumns replicationColumns)
        (makeQueryOverrideMap (mkVersion 9 2 0) gatedOverrides) = Done ([], [], None)"
proof -
  have a: "distinct (map fst gatedOverrides)
        \<and> (''pg_stat_replication'', snd (hd gatedOverrides)) \<in> set gatedOverrides
        \<and> (\<forall>q \<in> set (snd (hd gatedOverrides)). \<not> versionRange q (mkVersion 9 2 0))"
    by (simp add: gatedOverrides_def versionGE_def mkVersion_def)
  from a disabled_namespace_no_samples
    [of gatedOverrides "''pg_stat_replication''" "snd (hd gatedOverrides)" "mkVersion 9 2 0"]
  have b: "makeQueryOverrideMap (mkVersion 9 2 0) gatedOverrides ''pg_stat_replication'' = Some ''''"
    by blast
  with disabled_namespace_no_samples
    [of _ _ _ _ "makeQueryOverrideMap (mkVersion 9 2 0) gatedOverrides" "''pg_stat_replication''"]
  show ?thesis by blast
qed

text \<open>
  Claim C9. When several candidates of a namespace accept the target version,
  \<open>makeQueryOverrideMap\<close> takes the first of them in the order of the list: the result is
  the query of the first accepting candidate, whatever follows it.
\<close>

theorem makeQueryOverrideMap_first_match:
  assumes "distinct (map fst queryOverrides)" and "(name, pre @ q # post) \<in> set queryOverrides"
    and "\<forall>p \<in> set pre. \<not> versionRange p pgVersion" and "versionRange q pgVersion"
  shows "makeQueryOverrideMap pgVersion queryOverrides name = Some (query q)"
  using makeQueryOverrideMap_lookup [OF assms(1,2)] firstMatch_first [OF assms(3,4)]
  by simp

text \<open>Ranges \<open>>=10.0.0\<close>, \<open>>=9.2.0\<close>, \<open>>=9.0.0\<close> in this order, for 9.6.2: the last two accept.\<close>

theorem makeQueryOverrideMap_first_match_witness:
  "makeQueryOverrideMap (mkVersion 9 6 2) overlappingOverrides ''pg_stat_replication'' = Some ''SELECT 92''"
  using makeQueryOverrideMap_first_match
    [of overlappingOverrides "''pg_stat_replication''"
        "[\<lparr>versionRange = versionGE (mkVersion 10 0 0), query = ''SELECT 10''\<rparr>]"
        "\<lparr>versionRange = versionGE (mkVersion 9 2 0), query = ''SELECT 92''\<rparr>"
        "[\<lparr>versionRange = versionGE (mkVersion 9 0 0), query = ''SELECT 90''\<rparr>]"
        "mkVersion 9 6 2"]
  by (simp add: overlappingOverrides_def versionGE_def mkVersion_def)

section \<open>Label-value coercion\<close>

text \<open>
  Claim C7, as the code has it. \<open>dbToString\<close> renders integers, floats and timestamps to
  their text, byte strings and strings to themselves and null to the empty string, each
  with \<open>ok = true\<close>; for any other value, which for this driver is a \<open>bool\<close>, it returns the
  empty string and \<open>ok = false\<close>.
\<close>

theorem dbToString_coercion:
  "dbToString lib (DInt64 i) = (showInt i, True)
   \<and> dbToString lib (DFloat64 f) = (FormatFloat lib f, True)
   \<and> dbToString lib (DTime u) = (showInt u, True)
   \<and> dbToString lib (DBytes s) = (s, True)
   \<and> dbToString lib (DString s) = (s, True)
   \<and> dbToString lib DNil = ('''', True)
   \<and> dbToString lib (DBool b) = ('''', False)
   \<and> snd (dbToString lib v) = (\<forall>b. v \<noteq> DBool b)"
  by (cases v) simp_all

theorem dbToString_coercion_witness:
  "dbToString exampleLib (DInt64 (- 1205)) = (''-1205'', True)
   \<and> dbToString exampleLib (DBytes ''idle'') = (''idle'', True)
   \<and> dbToString exampleLib DNil = ('''', True)"
  using dbToString_coercion [of exampleLib "- 1205" _ _ "''idle''" _ _]
  by (simp add: showInt_def showNat.simps digitChar_def)

text \<open>The claim as stated, that \<open>ok\<close> is always true, fails on a boolean column value.\<close>

theorem dbToString_bool_counterexample:
  "\<not> snd (dbToString exampleLib (DBool True))"
  by simp

section \<open>Rebuilding the effective map\<close>

lemma makeDescMap_dom: "dom (makeDescMap lib pgVersion metricMaps) = fst ` set metricMaps"
  using fold_assign_dom
    [of "\<lambda>e. compileNamespace lib pgVersion (fst e) (fst (snd e)) (snd (snd e))" metricMaps Map.empty]
  by (simp add: makeDescMap_def)

lemma compileNamespace_dom:
  "dom (columnMappings (compileNamespace lib pgVersion namespace labelWalk mappings)) = fst ` set mappings"
  using fold_assign_dom
    [of "\<lambda>e. compileColumn lib pgVersion namespace (constLabelsOf labelWalk) (snd (last mappings)) (fst e) (snd e)"
        mappings Map.empty]
  by (simp add: compileNamespace_def)

lemma compileNamespace_labels:
  "labels (compileNamespace lib pgVersion namespace labelWalk mappings) = constLabelsOf labelWalk"
  by (simp add: compileNamespace_def)

lemma discard_compileColumn:
  "discard (compileColumn lib pgVersion namespace constLabels lastMapping columnName columnMapping) =
     ((case supportedVersions columnMapping of None \<Rightarrow> False | Some r \<Rightarrow> \<not> r pgVersion)
      \<or> usage columnMapping = DISCARD \<or> usage columnMapping = LABEL)"
  by (cases "usage columnMapping") (simp_all add: compileColumn_def discardedColumn_def)

lemma constLabelsOf_set:
  "set (constLabelsOf mappings) = {c. \<exists>cm. (c, cm) \<in> set mappings \<and> usage cm = LABEL}"
  by (force simp: constLabelsOf_def)

lemma constLabelsOf_distinct: "distinct (map fst mappings) \<Longrightarrow> distinct (constLabelsOf mappings)"
  by (simp add: constLabelsOf_def distinct_map_filter)

text \<open>
  Claim C2, as the code has it. Compiling one catalog twice for one version gives the same
  namespaces, for each namespace the same columns with the same discard flags, and label
  lists with the same names, each once; the order of a label list is the order in which
  the runtime walks the column map in the first loop, which is not the order of the second
  loop nor that of another run.
\<close>

theorem makeDescMap_same_up_to_label_order:
  assumes "sameCatalog c1 c2"
  shows "dom (makeDescMap lib pgVersion c1) = dom (makeDescMap lib pgVersion c2)
    \<and> (\<forall>namespace n1 n2.
          makeDescMap lib pgVersion c1 namespace = Some n1 \<and> makeDescMap lib pgVersion c2 namespace = Some n2
          \<longrightarrow> set (labels n1) = set (labels n2) \<and> distinct (labels n1) \<and> distinct (labels n2)
              \<and> dom (columnMappings n1) = dom (columnMappings n2)
              \<and> (\<forall>columnName m1 m2.
                    columnMappings n1 columnName = Some m1 \<and> columnMappings n2 columnName = Some m2
                    \<longrightarrow> discard m1 = discard m2))"
proof (intro conjI allI impI)
  from assms show "dom (makeDescMap lib pgVersion c1) = dom (makeDescMap lib pgVersion c2)"
    by (simp add: makeDescMap_dom sameCatalog_def)
next
  fix namespace n1 n2
  assume both: "makeDescMap lib pgVersion c1 namespace = Some n1 \<and> makeDescMap lib pgVersion c2 namespace = Some n2"
  from assms have d1: "distinct (map fst c1)" and d2: "distinct (map fst c2)"
    by (simp_all add: sameCatalog_def)
  from both have "namespace \<in> dom (makeDescMap lib pgVersion c1)"
    and "namespace \<in> dom (makeDescMap lib pgVersion c2)" by auto
  then have "namespace \<in> fst ` set c1" and "namespace \<in> fst ` set c2"
    by (simp_all only: makeDescMap_dom)
  then obtain y1 y2 where y1: "y1 \<in> set c1" "fst y1 = namespace" and y2: "y2 \<in> set c2" "fst y2 = namespace"
    by auto
  obtain l1 x1 where "y1 = (namespace, l1, x1)" using y1(2) by (cases y1) auto
  with y1 have x1: "(namespace, l1, x1) \<in> set c1" by simp
  obtain l2 x2 where "y2 = (namespace, l2, x2)" using y2(2) by (cases y2) auto
  with y2 have x2: "(namespace, l2, x2) \<in> set c2" by simp
  from both makeDescMap_lookup [OF d1 x1, of lib pgVersion] makeDescMap_lookup [OF d2 x2, of lib pgVersion]
  have n1: "n1 = compileNamespace lib pgVersion namespace l1 x1"
    and n2: "n2 = compileNamespace lib pgVersion namespace l2 x2" by simp_all
  from assms have u: "\<forall>e \<in> set c1 \<union> set c2. sameGoMap (fst (snd e)) (snd (snd e))"
    and v: "\<forall>e1 \<in> set c1. \<forall>e2 \<in> set c2. fst e1 = fst e2 \<longrightarrow> sameGoMap (snd (snd e1)) (snd (snd e2))"
    by (simp_all add: sameCatalog_def)
  from v x1 x2
  have "fst (namespace, l1, x1) = fst (namespace, l2, x2)
        \<longrightarrow> sameGoMap (snd (snd (namespace, l1, x1))) (snd (snd (namespace, l2, x2)))"
    by blast
  then have same: "sameGoMap x1 x2" by simp
  from u x1 have "sameGoMap (fst (snd (namespace, l1, x1))) (snd (snd (namespace, l1, x1)))" by blast
  then have w1: "sameGoMap l1 x1" by simp
  from u x2 have "sameGoMap (fst (snd (namespace, l2, x2))) (snd (snd (namespace, l2, x2)))" by blast
  then have w2: "sameGoMap l2 x2" by simp
  from same have e1: "distinct (map fst x1)" and e2: "distinct (map fst x2)" and eq: "set x1 = set x2"
    by (simp_all add: sameGoMap_def)
  from w1 w2 have f1: "distinct (map fst l1)" and f2: "distinct (map fst l2)"
    and eq1: "set l1 = set x1" and eq2: "set l2 = set x2"
    by (simp_all add: sameGoMap_def)
  show "set (labels n1) = set (labels n2)"
    by (simp add: n1 n2 compileNamespace_labels constLabelsOf_set eq eq1 eq2)
  show "distinct (labels n1)" by (simp add: n1 compileNamespace_labels constLabelsOf_distinct f1)
  show "distinct (labels n2)" by (simp add: n2 compileNamespace_labels constLabelsOf_distinct f2)
  show "dom (columnMappings n1) = dom (columnMappings n2)"
    by (simp add: n1 n2 compileNamespace_dom eq)
  fix columnName m1 m2
  assume cols: "columnMappings n1 columnName = Some m1 \<and> columnMappings n2 columnName = Some m2"
  then have "columnName \<in> dom (columnMappings n1)" by auto
  then obtain cm where cm1: "(columnName, cm) \<in> set x1"
    by (auto simp: n1 compileNamespace_dom)
  with eq have cm2: "(columnName, cm) \<in> set x2" by simp
  from cols compileNamespace_lookup [OF e1 cm1, of lib pgVersion namespace l1]
    compileNamespace_lookup [OF e2 cm2, of lib pgVersion namespace l2]
  show "discard m1 = discard m2"
    by (auto simp: n1 n2 discard_compileColumn)
qed

lemma locks_walks:
  "sameGoMap locksColumns locksColumns" "sameGoMap locksColumnsOtherWalk locksColumns"
  by (auto simp: sameGoMap_def locksColumns_def locksColumnsOtherWalk_def)

lemma locks_sameCatalog:
  "sameCatalog [(''pg_locks'', locksColumns, locksColumns)] [(''pg_locks'', locksColumnsOtherWalk, locksColumns)]"
  by (simp add: sameCatalog_def locks_walks)

text \<open>Two runs over \<open>pg_locks\<close>; in the second the first loop walks the columns in another order.\<close>

theorem makeDescMap_same_up_to_label_order_witness:
  "sameCatalog [(''pg_locks'', locksColumns, locksColumns)] [(''pg_locks'', locksColumnsOtherWalk, locksColumns)]
   \<and> dom (makeDescMap exampleLib (mkVersion 9 6 2) [(''pg_locks'', locksColumns, locksColumns)])
     = dom (makeDescMap exampleLib (mkVersion 9 6 2) [(''pg_locks'', locksColumnsOtherWalk, locksColumns)])"
proof -
  from makeDescMap_same_up_to_label_order [OF locks_sameCatalog, of exampleLib "mkVersion 9 6 2"]
  have "dom (makeDescMap exampleLib (mkVersion 9 6 2) [(''pg_locks'', locksColumns, locksColumns)])
     = dom (makeDescMap exampleLib (mkVersion 9 6 2) [(''pg_locks'', locksColumnsOtherWalk, locksColumns)])"
    by (rule conjunct1)
  with locks_sameCatalog show ?thesis by (rule conjI)
qed

text \<open>
  The claim as stated fixes the order of the label list. The first loop of \<open>makeDescMap\<close>
  walks a Go map, and the two walks of \<open>pg_locks\<close> give two different label lists.
\<close>

theorem makeDescMap_label_order_counterexample:
  "sameCatalog [(''pg_locks'', locksColumns, locksColumns)] [(''pg_locks'', locksColumnsOtherWalk, locksColumns)]
   \<and> map_option labels
        (makeDescMap exampleLib (mkVersion 9 6 2) [(''pg_locks'', locksColumns, locksColumns)] ''pg_locks'')
       = Some [''datname'', ''mode'']
   \<and> map_option labels
        (makeDescMap exampleLib (mkVersion 9 6 2) [(''pg_locks'', locksColumnsOtherWalk, locksColumns)] ''pg_locks'')
       = Some [''mode'', ''datname'']"
proof -
  have "map_option labels
        (makeDescMap exampleLib (mkVersion 9 6 2) [(''pg_locks'', locksColumns, locksColumns)] ''pg_locks'')
       = Some [''datname'', ''mode'']"
    by (simp add: makeDescMap_def compileNamespace_def constLabelsOf_def locksColumns_def column_def)
  moreover have "map_option labels
        (makeDescMap exampleLib (mkVersion 9 6 2) [(''pg_locks'', locksColumnsOtherWalk, locksColumns)] ''pg_locks'')
       = Some [''mode'', ''datname'']"
    by (simp add: makeDescMap_def compileNamespace_def constLabelsOf_def locksColumnsOtherWalk_def column_def)
  ultimately show ?thesis using locks_sameCatalog by (intro conjI)
qed

section \<open>Duration columns\<close>

lemma exampleParseDuration_ms: "exampleParseDuration ''1500ms'' = Some 1500000000"
  by (simp add: exampleParseDuration_def isDigit_def digitsValue_def unitNanoseconds_def)

lemma exampleParseDuration_us: "exampleParseDuration ''1500us'' = Some 1500000"
  by (simp add: exampleParseDuration_def isDigit_def digitsValue_def unitNanoseconds_def)

text \<open>
  Claim C6, as the code has it. For a column of usage \<open>DURATION\<close> that the version does not
  reject, the conversion returns (NaN, false) and logs nothing on the text \<open>-1\<close>; returns
  (NaN, false) and logs an error on any other text that \<open>time.ParseDuration\<close> rejects; and
  on a text it accepts returns, with \<open>ok = true\<close>, the whole number of milliseconds of the
  duration: its nanoseconds divided by \<open>10^6\<close> as integers, truncated toward zero. The
  descriptor is named \<open>{namespace}_{column}_milliseconds\<close>.
\<close>

theorem duration_column_conversion:
  assumes "distinct (map fst metricMaps)" and "(namespace, labelWalk, mappings) \<in> set metricMaps"
    and "distinct (map fst mappings)" and "(columnName, columnMapping) \<in> set mappings"
    and "usage columnMapping = DURATION"
    and "case supportedVersions columnMapping of None \<Rightarrow> True | Some r \<Rightarrow> r pgVersion"
  shows "\<exists>ns m. makeDescMap lib pgVersion metricMaps namespace = Some ns
           \<and> columnMappings ns columnName = Some m
           \<and> conversion m (DString ''-1'') = ((NaN, False), [])
           \<and> conversion m (DBytes ''-1'') = ((NaN, False), [])
           \<and> (\<forall>s. s \<noteq> ''-1'' \<and> ParseDuration lib s = None \<longrightarrow>
                  conversion m (DString s) = ((NaN, False), [(LError, ''Failed converting result to metric:'')])
                  \<and> conversion m (DBytes s) = ((NaN, False), [(LError, ''Failed converting result to metric:'')]))
           \<and> (\<forall>s d. s \<noteq> ''-1'' \<and> ParseDuration lib s = Some d \<longrightarrow>
                  conversion m (DString s) = ((float64_of_int64 (d sdiv 1000000), True), [])
                  \<and> conversion m (DBytes s) = ((float64_of_int64 (d sdiv 1000000), True), []))
           \<and> map_option fqName (desc m) = Some (namespace @ ''_'' @ columnName @ ''_milliseconds'')"
  using makeDescMap_lookup [OF assms(1,2)] compileNamespace_lookup [OF assms(3,4)] assms(5,6)
  by (auto simp: compileColumn_def durationConversion_def NewDesc_def split: option.splits)

text \<open>The texts \<open>-1\<close> and \<open>1500ms\<close> on the column \<open>lag\<close> of \<open>pg_custom\<close>.\<close>

theorem duration_column_conversion_witness:
  "\<exists>ns m. makeDescMap exampleLib (mkVersion 9 6 2) durationCatalog ''pg_custom'' = Some ns
     \<and> columnMappings ns ''lag'' = Some m
     \<and> conversion m (DString ''-1'') = ((NaN, False), [])
     \<and> conversion m (DString ''1500ms'') = ((Float 1500, True), [])
     \<and> map_option fqName (desc m) = Some ''pg_custom_lag_milliseconds''"
proof -
  have "distinct (map fst durationCatalog)"
    and "(''pg_custom'', [(''lag'', column DURATION ''Replication lag'' None)],
           [(''lag'', column DURATION ''Replication lag'' None)]) \<in> set durationCatalog"
    and "distinct (map fst [(''lag'', column DURATION ''Replication lag'' None)])"
    and "(''lag'', column DURATION ''Replication lag'' None) \<in> set [(''lag'', column DURATION ''Replication lag'' None)]"
    and "usage (column DURATION ''Replication lag'' None) = DURATION"
    and "case supportedVersions (column DURATION ''Replication lag'' None) of None \<Rightarrow> True | Some r \<Rightarrow> r (mkVersion 9 6 2)"
    by (simp_all add: durationCatalog_def column_def)
  from duration_column_conversion [OF this, of exampleLib]
  obtain ns m where a: "makeDescMap exampleLib (mkVersion 9 6 2) durationCatalog ''pg_custom'' = Some ns"
    and b: "columnMappings ns ''lag'' = Some m"
    and c: "conversion m (DString ''-1'') = ((NaN, False), [])"
    and d: "\<forall>s d. s \<noteq> ''-1'' \<and> ParseDuration exampleLib s = Some d \<longrightarrow>
                  conversion m (DString s) = ((float64_of_int64 (d sdiv 1000000), True), [])
                  \<and> conversion m (DBytes s) = ((float64_of_int64 (d sdiv 1000000), True), [])"
    and e: "map_option fqName (desc m) = Some (''pg_custom'' @ ''_'' @ ''lag'' @ ''_milliseconds'')"
    by blast
  have "ParseDuration exampleLib ''1500ms'' = Some 1500000000"
    by (simp add: exampleLib_def exampleParseDuration_ms)
  with d have "conversion m (DString ''1500ms'') = ((float64_of_int64 (1500000000 sdiv 1000000), True), [])"
    by simp
  then have "conversion m (DString ''1500ms'') = ((Float 1500, True), [])"
    by (simp add: float64_of_int64_def roundInt53_exact signed_divide_int_def)
  with a b c e show ?thesis by simp
qed

text \<open>
  The claim as stated gives the duration in milliseconds. The text \<open>1500us\<close> is a duration
  of 1.5 milliseconds, and the conversion returns 1.
\<close>

theorem duration_truncation_counterexample:
  "ParseDuration exampleLib ''1500us'' = Some 1500000
   \<and> map_option (\<lambda>m. fst (conversion m (DString ''1500us'')))
        (Option.bind (makeDescMap exampleLib (mkVersion 9 6 2) durationCatalog ''pg_custom'')
           (\<lambda>ns. columnMappings ns ''lag''))
       = Some (Float 1, True)
   \<and> Float 1 \<noteq> Float (1500000 / 1000000)"
  by (simp add: exampleLib_def exampleParseDuration_us makeDescMap_def compileNamespace_def
        durationCatalog_def column_def compileColumn_def durationConversion_def
        float64_of_int64_def roundInt53_exact signed_divide_int_def)

section \<open>Parsing the version banner\<close>

lemma plusRests_empty: "(plusRests p s = []) = (s = [] \<or> \<not> p (hd s))"
  by (cases s) auto

lemma plusRests_hd: "s \<noteq> [] \<Longrightarrow> p (hd s) \<Longrightarrow> hd (plusRests p s) = dropWhile p s"
proof (induction s)
  case Nil
  then show ?case by simp
next
  case (Cons c cs)
  then have pc: "p c" by simp
  show ?case
  proof (cases "cs = [] \<or> \<not> p (hd cs)")
    case True
    then have "plusRests p cs = []" by (simp add: plusRests_empty)
    moreover from True have "dropWhile p cs = cs" by (cases cs) auto
    ultimately show ?thesis using pc by simp
  next
    case False
    then have "plusRests p cs \<noteq> []" by (simp add: plusRests_empty)
    moreover from False have "hd (plusRests p cs) = dropWhile p cs" by (simp add: Cons.IH)
    ultimately show ?thesis using pc by simp
  qed
qed

lemma class_after_plus:
  assumes "\<And>c. p c \<Longrightarrow> \<not> q c"
  shows "concat (map (rmatch (Class q)) (plusRests p s)) =
         (if s \<noteq> [] \<and> p (hd s) then rmatch (Class q) (dropWhile p s) else [])"
proof (induction s)
  case Nil
  then show ?case by simp
next
  case (Cons c cs)
  then show ?case using assms
    by (cases cs) auto
qed

lemma hd_concat_map:
  "xs \<noteq> [] \<Longrightarrow> f (hd xs) \<noteq> [] \<Longrightarrow> hd (concat (map f xs)) = hd (f (hd xs))"
  by (cases xs) auto

lemma concat_map_nonempty:
  "xs \<noteq> [] \<Longrightarrow> f (hd xs) \<noteq> [] \<Longrightarrow> concat (map f xs) \<noteq> []"
  by (cases xs) auto

lemma rmatch_dotDigits:
  "rmatch dotDigits x =
     (case x of [] \<Rightarrow> [] | c # cs \<Rightarrow> if c = CHR ''.'' then plusRests isDigit cs else [])"
  by (cases x) (simp_all add: dotDigits_def)

lemma rmatch_opt_nonempty: "rmatch (Opt r) x \<noteq> []"
  by simp

lemma hd_opt_dotDigits: "hd (rmatch (Opt dotDigits) x) = drop (length (dotPart x)) x"
proof (cases x)
  case Nil
  then show ?thesis by (simp add: rmatch_dotDigits dotPart_def)
next
  case (Cons c cs)
  show ?thesis
  proof (cases "c = CHR ''.'' \<and> cs \<noteq> [] \<and> isDigit (hd cs)")
    case True
    then have "plusRests isDigit cs \<noteq> []" by (simp add: plusRests_empty)
    moreover from True have "hd (plusRests isDigit cs) = dropWhile isDigit cs"
      by (simp add: plusRests_hd)
    ultimately show ?thesis using True Cons
      by (simp add: rmatch_dotDigits dotPart_def dropWhile_eq_drop)
  next
    case False
    then have "rmatch dotDigits x = []"
      using Cons by (auto simp: rmatch_dotDigits plusRests_empty)
    with False Cons show ?thesis by (auto simp: dotPart_def)
  qed
qed

lemma dotPart_prefix: "take (length (dotPart x)) x = dotPart x"
  by (cases x) (auto simp: dotPart_def takeWhile_eq_take [symmetric])

lemma hd_two_opts:
  "hd (rmatch (Seq (Opt dotDigits) (Opt dotDigits)) x) =
     drop (length (dotPart (drop (length (dotPart x)) x))) (drop (length (dotPart x)) x)"
proof -
  have "hd (rmatch (Seq (Opt dotDigits) (Opt dotDigits)) x)
        = hd (rmatch (Opt dotDigits) (hd (rmatch (Opt dotDigits) x)))"
    unfolding rmatch.simps(5)
    by (rule hd_concat_map) simp_all
  then show ?thesis by (simp only: hd_opt_dotDigits)
qed

lemma two_opts_nonempty: "rmatch (Seq (Opt dotDigits) (Opt dotDigits)) x \<noteq> []"
  unfolding rmatch.simps(5) by (rule concat_map_nonempty) simp_all

lemma token_rests:
  assumes "r \<noteq> []" and "isDigit (hd r)"
  shows "rmatch versionTokenRe r \<noteq> []"
    and "take (length r - length (hd (rmatch versionTokenRe r))) r = specVersionToken r"
proof -
  let ?x1 = "dropWhile isDigit r"
  let ?x2 = "drop (length (dotPart ?x1)) ?x1"
  let ?x3 = "drop (length (dotPart ?x2)) ?x2"
  from assms have ne: "plusRests isDigit r \<noteq> []" by (simp add: plusRests_empty)
  have eq: "rmatch versionTokenRe r
        = concat (map (rmatch (Seq (Opt dotDigits) (Opt dotDigits))) (plusRests isDigit r))"
    by (simp add: versionTokenRe_def)
  show "rmatch versionTokenRe r \<noteq> []"
    unfolding eq using ne two_opts_nonempty by (rule concat_map_nonempty)
  have "hd (rmatch versionTokenRe r) = hd (rmatch (Seq (Opt dotDigits) (Opt dotDigits)) (hd (plusRests isDigit r)))"
    unfolding eq using ne two_opts_nonempty by (rule hd_concat_map)
  moreover have "hd (plusRests isDigit r) = ?x1" using assms by (rule plusRests_hd)
  ultimately have h: "hd (rmatch versionTokenRe r) = ?x3"
    by (simp only: hd_two_opts)
  have r: "r = takeWhile isDigit r @ dotPart ?x1 @ dotPart ?x2 @ ?x3"
    by (metis append_take_drop_id dotPart_prefix takeWhile_dropWhile_id)
  have "length r - length ?x3 = length (takeWhile isDigit r @ dotPart ?x1 @ dotPart ?x2)"
    by (subst r) simp
  then have "take (length r - length ?x3) r = takeWhile isDigit r @ dotPart ?x1 @ dotPart ?x2"
    by (metis r append_eq_conv_conj append.assoc)
  then show "take (length r - length (hd (rmatch versionTokenRe r))) r = specVersionToken r"
    by (simp add: h specVersionToken_def Let_def)
qed

lemma space_not_word: "isWordChar c \<Longrightarrow> c \<noteq> CHR '' ''"
  by (auto simp: isWordChar_def isDigit_def)

lemma leading_rests:
  "rmatch leadingWordRe s =
     (if s \<noteq> [] \<and> isWordChar (hd s)
      then rmatch (Class (\<lambda>c. c = CHR '' '')) (dropWhile isWordChar s) else [])"
  using class_after_plus [of isWordChar "\<lambda>c. c = CHR '' ''" s] space_not_word
  by (simp add: leadingWordRe_def)

lemma submatch_of_rest:
  "(case concat (map (\<lambda>r1. map (\<lambda>r2. take (length r1 - length r2) r1) (rmatch versionTokenRe r1))
                    (rmatch (Class (\<lambda>c. c = CHR '' '')) x)) of
      [] \<Rightarrow> None
    | t # _ \<Rightarrow> Some t) =
   (if \<exists>rest. x = CHR '' '' # rest \<and> rest \<noteq> [] \<and> isDigit (hd rest)
    then Some (specVersionToken (tl x)) else None)"
proof (cases x)
  case Nil
  then show ?thesis by simp
next
  case (Cons c rest)
  show ?thesis
  proof (cases "c = CHR '' ''")
    case False
    with Cons show ?thesis by simp
  next
    case sp: True
    show ?thesis
    proof (cases "rest \<noteq> [] \<and> isDigit (hd rest)")
      case False
      then have "rmatch versionTokenRe rest = []"
        by (auto simp: versionTokenRe_def plusRests_empty)
      with Cons sp False show ?thesis by auto
    next
      case dg: True
      then have ne: "rmatch versionTokenRe rest \<noteq> []"
        and tk: "take (length rest - length (hd (rmatch versionTokenRe rest))) rest = specVersionToken rest"
        by (simp_all add: token_rests)
      from ne obtain r2 rs where rs: "rmatch versionTokenRe rest = r2 # rs"
        by (cases "rmatch versionTokenRe rest") auto
      with tk have "take (length rest - length r2) rest = specVersionToken rest" by simp
      with Cons sp dg rs show ?thesis by simp
    qed
  qed
qed

lemma versionSubmatch_char:
  "versionSubmatch s =
     (if s \<noteq> [] \<and> isWordChar (hd s)
         \<and> (\<exists>rest. dropWhile isWordChar s = CHR '' '' # rest \<and> rest \<noteq> [] \<and> isDigit (hd rest))
      then Some (specVersionToken (tl (dropWhile isWordChar s))) else None)"
proof (cases "s \<noteq> [] \<and> isWordChar (hd s)")
  case False
  then show ?thesis by (auto simp: versionSubmatch_def leading_rests)
next
  case True
  then have "rmatch leadingWordRe s = rmatch (Class (\<lambda>c. c = CHR '' '')) (dropWhile isWordChar s)"
    by (simp add: leading_rests)
  then show ?thesis
    unfolding versionSubmatch_def using True
    by (simp only: submatch_of_rest) simp
qed


lemma exampleParseTolerant_962: "exampleParseTolerant ''9.6.2'' = Inr (mkVersion 9 6 2)"
  by (simp add: exampleParseTolerant_def isDigit_def digitsValue_def mkVersion_def)

lemma exampleParseTolerant_101: "exampleParseTolerant ''10.1'' = Inr (mkVersion 10 1 0)"
  by (simp add: exampleParseTolerant_def isDigit_def digitsValue_def mkVersion_def)

text \<open>
  Claim C8, as the code has it. \<open>parseVersion\<close> succeeds only on a text that begins with a
  word (letters, digits, underscores), one space and a digit. It then hands to
  \<open>semver.ParseTolerant\<close> the token \<open>major(.minor)?(.patch)?\<close> that starts at that digit, and
  returns what \<open>ParseTolerant\<close> returns; the rest of the text is not read. On any other text,
  also one that holds a dotted numeric token elsewhere, it returns the error that no version
  was found.
\<close>

theorem parseVersion_leading_word:
  "(w \<noteq> [] \<and> list_all isWordChar w \<and> rest \<noteq> [] \<and> isDigit (hd rest)
      \<longrightarrow> parseVersion lib (w @ CHR '' '' # rest) = ParseTolerant lib (specVersionToken rest))
   \<and> ((\<nexists>w rest. w \<noteq> [] \<and> list_all isWordChar w \<and> rest \<noteq> [] \<and> isDigit (hd rest)
                  \<and> s = w @ CHR '' '' # rest)
      \<longrightarrow> parseVersion lib s = Inl (NoVersionFound s))"
proof (intro conjI impI)
  assume a: "w \<noteq> [] \<and> list_all isWordChar w \<and> rest \<noteq> [] \<and> isDigit (hd rest)"
  then have allw: "\<And>c. c \<in> set w \<Longrightarrow> isWordChar c" by (simp add: list_all_iff)
  then have dw: "dropWhile isWordChar (w @ CHR '' '' # rest) = CHR '' '' # rest"
    using space_not_word by (simp add: dropWhile_append2) blast
  from a have "hd (w @ CHR '' '' # rest) = hd w" by simp
  with a allw have "isWordChar (hd (w @ CHR '' '' # rest))" by simp
  with a dw have "versionSubmatch (w @ CHR '' '' # rest) = Some (specVersionToken rest)"
    by (simp add: versionSubmatch_char)
  then show "parseVersion lib (w @ CHR '' '' # rest) = ParseTolerant lib (specVersionToken rest)"
    by (simp add: parseVersion_def)
next
  assume n: "\<nexists>w rest. w \<noteq> [] \<and> list_all isWordChar w \<and> rest \<noteq> [] \<and> isDigit (hd rest)
                  \<and> s = w @ CHR '' '' # rest"
  have "versionSubmatch s = None"
  proof (rule ccontr)
    assume "versionSubmatch s \<noteq> None"
    then have s: "s \<noteq> []" and h: "isWordChar (hd s)"
      and ex: "\<exists>rest. dropWhile isWordChar s = CHR '' '' # rest \<and> rest \<noteq> [] \<and> isDigit (hd rest)"
      by (auto simp: versionSubmatch_char split: if_splits)
    from ex obtain rest where r: "dropWhile isWordChar s = CHR '' '' # rest"
      and r2: "rest \<noteq> []" "isDigit (hd rest)" by blast
    have "s = takeWhile isWordChar s @ CHR '' '' # rest"
      using r takeWhile_dropWhile_id [of isWordChar s] by simp
    moreover from s h have "takeWhile isWordChar s \<noteq> []" by (cases s) auto
    moreover have "list_all isWordChar (takeWhile isWordChar s)"
      by (simp add: list_all_iff) (meson set_takeWhileD)
    ultimately show False using n r2 by blast
  qed
  then show "parseVersion lib s = Inl (NoVersionFound s)"
    by (simp add: parseVersion_def)
qed

text \<open>A server banner, a banner without patch number, and a banner without number.\<close>

theorem parseVersion_leading_word_witness:
  "parseVersion exampleLib ''PostgreSQL 9.6.2 on x86_64-pc-linux-gnu'' = Inr (mkVersion 9 6 2)
   \<and> parseVersion exampleLib ''PostgreSQL 10.1'' = Inr (mkVersion 10 1 0)
   \<and> parseVersion exampleLib ''PostgreSQL'' = Inl (NoVersionFound ''PostgreSQL'')"
proof -
  have "parseVersion exampleLib (''PostgreSQL'' @ CHR '' '' # ''9.6.2 on x86_64-pc-linux-gnu'')
        = ParseTolerant exampleLib (specVersionToken ''9.6.2 on x86_64-pc-linux-gnu'')"
    using parseVersion_leading_word [of "''PostgreSQL''" "''9.6.2 on x86_64-pc-linux-gnu''" exampleLib]
    by (simp add: isWordChar_def isDigit_def)
  moreover have "specVersionToken ''9.6.2 on x86_64-pc-linux-gnu'' = ''9.6.2''"
    by (simp add: specVersionToken_def dotPart_def isDigit_def)
  ultimately have a: "parseVersion exampleLib ''PostgreSQL 9.6.2 on x86_64-pc-linux-gnu'' = Inr (mkVersion 9 6 2)"
    by (simp add: exampleLib_def exampleParseTolerant_962)
  have "parseVersion exampleLib (''PostgreSQL'' @ CHR '' '' # ''10.1'')
        = ParseTolerant exampleLib (specVersionToken ''10.1'')"
    using parseVersion_leading_word [of "''PostgreSQL''" "''10.1''" exampleLib]
    by (simp add: isWordChar_def isDigit_def)
  moreover have "specVersionToken ''10.1'' = ''10.1''"
    by (simp add: specVersionToken_def dotPart_def isDigit_def)
  ultimately have b: "parseVersion exampleLib ''PostgreSQL 10.1'' = Inr (mkVersion 10 1 0)"
    by (simp add: exampleLib_def exampleParseTolerant_101)
  have "\<nexists>w rest. w \<noteq> [] \<and> list_all isWordChar w \<and> rest \<noteq> [] \<and> isDigit (hd rest)
                  \<and> ''PostgreSQL'' = w @ CHR '' '' # rest"
  proof
    assume "\<exists>w rest. w \<noteq> [] \<and> list_all isWordChar w \<and> rest \<noteq> [] \<and> isDigit (hd rest)
                  \<and> ''PostgreSQL'' = w @ CHR '' '' # rest"
    then obtain w rest where "''PostgreSQL'' = w @ CHR '' '' # rest" by blast
    then have "CHR '' '' \<in> set ''PostgreSQL''" by (metis in_set_conv_decomp)
    then show False by simp
  qed
  with parseVersion_leading_word [of _ _ exampleLib "''PostgreSQL''"]
  have c: "parseVersion exampleLib ''PostgreSQL'' = Inl (NoVersionFound ''PostgreSQL'')" by blast
  from a b c show ?thesis by simp
qed

text \<open>
  The claim as stated lets any text with a dotted numeric token parse. A bare version and
  the banner of the client program hold the token \<open>9.6.2\<close> and are rejected.
\<close>

theorem parseVersion_token_counterexample:
  "parseVersion exampleLib ''9.6.2'' = Inl (NoVersionFound ''9.6.2'')
   \<and> parseVersion exampleLib ''psql (PostgreSQL) 9.6.2'' = Inl (NoVersionFound ''psql (PostgreSQL) 9.6.2'')"
  by (simp add: parseVersion_def versionSubmatch_def leadingWordRe_def versionTokenRe_def
        isWordChar_def isDigit_def)

section \<open>Merging a user document\<close>

lemma foldResult_outcome:
  assumes "\<And>x s. x \<in> set xs \<Longrightarrow>
             (bad x \<longrightarrow> (\<exists>e. f x s = Failed e \<and> E e)) \<and> (\<not> bad x \<longrightarrow> (\<exists>s'. f x s = Done s'))"
  shows "(list_ex bad xs \<longrightarrow> (\<exists>e. foldResult f xs s = Failed e \<and> E e))
       \<and> (\<not> list_ex bad xs \<longrightarrow> (\<exists>s'. foldResult f xs s = Done s'))"
  using assms
proof (induction xs arbitrary: s)
  case Nil
  then show ?case by simp
next
  case (Cons x xs)
  show ?case
  proof (cases "bad x")
    case True
    with Cons.prems [of x s] obtain e where "f x s = Failed e" and "E e" by auto
    with True show ?thesis by auto
  next
    case False
    with Cons.prems [of x s] obtain s' where s': "f x s = Done s'" by auto
    have "(list_ex bad xs \<longrightarrow> (\<exists>e. foldResult f xs s' = Failed e \<and> E e))
       \<and> (\<not> list_ex bad xs \<longrightarrow> (\<exists>s''. foldResult f xs s' = Done s''))"
      by (rule Cons.IH) (simp add: Cons.prems)
    with False s' show ?thesis by simp
  qed
qed

lemma stringToColumnUsage_unknown:
  "\<not> knownUsage s \<Longrightarrow> stringToColumnUsage s = Inl (WrongColumnUsage s)"
  by (simp add: knownUsage_def stringToColumnUsage_def)

lemma stringToColumnUsage_known:
  "knownUsage s \<Longrightarrow> \<exists>u. stringToColumnUsage s = Inr u"
  by (auto simp: knownUsage_def stringToColumnUsage_def)

lemma stringToColumnUsage_error:
  "stringToColumnUsage s = Inl e \<Longrightarrow> usageError e"
  by (auto simp: knownUsage_def usageError_def stringToColumnUsage_def split: if_splits)

lemma attrStep_outcome:
  assumes "attrShaped attr"
  shows "(attrUnknown attr \<longrightarrow> (\<exists>e. attrStep attr cm = Failed e \<and> usageError e))
       \<and> (\<not> attrUnknown attr \<longrightarrow> (\<exists>cm'. attrStep attr cm = Done cm'))"
proof (cases attr)
  case (Pair k v)
  with assms obtain key where k: "k = YString key"
    by (cases k) (simp_all add: attrShaped_def)
  show ?thesis
  proof (cases "key = ''usage''")
    case True
    with assms Pair k obtain s where v: "v = YString s"
      by (cases v) (simp_all add: attrShaped_def)
    show ?thesis
    proof (cases "knownUsage s")
      case known: True
      then obtain u where "stringToColumnUsage s = Inr u" using stringToColumnUsage_known by blast
      with Pair k v True known show ?thesis by (simp add: attrStep_def attrUnknown_def)
    next
      case False
      then show ?thesis using Pair k v True
        by (simp add: attrStep_def attrUnknown_def stringToColumnUsage_unknown usageError_def)
    qed
  next
    case False
    show ?thesis
    proof (cases "key = ''description''")
      case True
      with assms Pair k obtain s where v: "v = YString s"
        by (cases v) (simp_all add: attrShaped_def)
      with Pair k True show ?thesis by (simp add: attrStep_def attrUnknown_def)
    next
      case nd: False
      with False Pair k show ?thesis by (simp add: attrStep_def attrUnknown_def)
    qed
  qed
qed

lemma columnStep_outcome:
  assumes "columnShaped col"
  shows "(columnUnknown col \<longrightarrow> (\<exists>e. columnStep metric col mm = Failed e \<and> usageError e))
       \<and> (\<not> columnUnknown col \<longrightarrow> (\<exists>mm'. columnStep metric col mm = Done mm'))"
proof (cases col)
  case (Pair n a)
  with assms obtain name where n: "n = YString name"
    by (cases n) (simp_all add: columnShaped_def)
  from assms Pair obtain attrs where a: "a = YMap attrs" and sh: "list_all attrShaped attrs"
    by (cases a) (simp_all add: columnShaped_def)
  have "(list_ex attrUnknown attrs \<longrightarrow> (\<exists>e. foldResult attrStep attrs zeroColumnMapping = Failed e \<and> usageError e))
      \<and> (\<not> list_ex attrUnknown attrs \<longrightarrow> (\<exists>cm'. foldResult attrStep attrs zeroColumnMapping = Done cm'))"
    using sh by (intro foldResult_outcome attrStep_outcome) (simp add: list_all_iff)
  then show ?thesis using Pair n a
    by (auto simp: columnStep_def columnUnknown_def Let_def)
qed

lemma metricsStep_outcome:
  assumes "metricShaped c"
  shows "(metricUnknown c \<longrightarrow> (\<exists>e. metricsStep metric c mm = Failed e \<and> usageError e))
       \<and> (\<not> metricUnknown c \<longrightarrow> (\<exists>mm'. metricsStep metric c mm = Done mm'))"
proof -
  from assms obtain cols where c: "c = YMap cols" and sh: "list_all columnShaped cols"
    by (cases c) (simp_all add: metricShaped_def)
  have "(list_ex columnUnknown cols \<longrightarrow> (\<exists>e. foldResult (columnStep metric) cols mm = Failed e \<and> usageError e))
      \<and> (\<not> list_ex columnUnknown cols \<longrightarrow> (\<exists>mm'. foldResult (columnStep metric) cols mm = Done mm'))"
    using sh by (intro foldResult_outcome columnStep_outcome) (simp add: list_all_iff)
  then show ?thesis using c by (simp add: metricsStep_def metricUnknown_def)
qed

lemma specStep_outcome:
  assumes "specShaped spec"
  shows "(specUnknown spec \<longrightarrow> (\<exists>e. specStep metric spec st = Failed e \<and> usageError e))
       \<and> (\<not> specUnknown spec \<longrightarrow> (\<exists>st'. specStep metric spec st = Done st'))"
proof (cases spec)
  case (Pair k v)
  with assms obtain key where k: "k = YString key"
    by (cases k) (simp_all add: specShaped_def)
  show ?thesis
  proof (cases "key = ''metrics''")
    case True
    with assms Pair k obtain cs where v: "v = YSeq cs" and sh: "list_all metricShaped cs"
      by (cases v) (simp_all add: specShaped_def)
    have "(list_ex metricUnknown cs \<longrightarrow> (\<exists>e. foldResult (metricsStep metric) cs (fst st) = Failed e \<and> usageError e))
      \<and> (\<not> list_ex metricUnknown cs \<longrightarrow> (\<exists>mm'. foldResult (metricsStep metric) cs (fst st) = Done mm'))"
      using sh by (intro foldResult_outcome metricsStep_outcome) (simp add: list_all_iff)
    then show ?thesis using Pair k v True
      by (auto simp: specStep_def specUnknown_def)
  next
    case False
    show ?thesis
    proof (cases "key = ''query''")
      case True
      with assms Pair k obtain q where v: "v = YString q"
        by (cases v) (simp_all add: specShaped_def)
      with Pair k True show ?thesis by (simp add: specStep_def specUnknown_def)
    next
      case nq: False
      with False Pair k show ?thesis by (simp add: specStep_def specUnknown_def)
    qed
  qed
qed

lemma userNamespaceStep_outcome:
  assumes "namespaceShaped entry"
  shows "(namespaceUnknown entry \<longrightarrow> (\<exists>e. userNamespaceStep entry st = Failed e \<and> usageError e))
       \<and> (\<not> namespaceUnknown entry \<longrightarrow> (\<exists>st'. userNamespaceStep entry st = Done st'))"
proof -
  from assms obtain specs where c: "snd entry = YMap specs" and sh: "list_all specShaped specs"
    by (cases "snd entry") (simp_all add: namespaceShaped_def)
  have "(list_ex specUnknown specs \<longrightarrow> (\<exists>e. foldResult (specStep (fst entry)) specs st = Failed e \<and> usageError e))
      \<and> (\<not> list_ex specUnknown specs \<longrightarrow> (\<exists>st'. foldResult (specStep (fst entry)) specs st = Done st'))"
    using sh by (intro foldResult_outcome specStep_outcome) (simp add: list_all_iff)
  then show ?thesis using c by (simp add: userNamespaceStep_def namespaceUnknown_def)
qed

lemma parse_outcome:
  assumes "wellShaped extra"
  shows "(hasUnknownUsage extra \<longrightarrow> (\<exists>e. foldResult userNamespaceStep extra st = Failed e \<and> usageError e))
       \<and> (\<not> hasUnknownUsage extra \<longrightarrow> (\<exists>st'. foldResult userNamespaceStep extra st = Done st'))"
  unfolding hasUnknownUsage_def
  using assms by (intro foldResult_outcome userNamespaceStep_outcome) (simp add: wellShaped_def list_all_iff)


lemma thenR_Failed: "thenR r f = Failed e \<Longrightarrow> r = Failed e \<or> (\<exists>x. r = Done x \<and> f x = Failed e)"
  by (cases r) auto

lemma asString_not_failed: "asString v \<noteq> Failed e"
  by (cases v) auto

lemma asMap_not_failed: "asMap v \<noteq> Failed e"
  by (cases v) auto

lemma asSeq_not_failed: "asSeq v \<noteq> Failed e"
  by (cases v) auto

lemma foldResult_failed:
  assumes "\<And>x s e. x \<in> set xs \<Longrightarrow> f x s = Failed e \<Longrightarrow> E e" and "foldResult f xs s = Failed e"
  shows "E e"
  using assms
proof (induction xs arbitrary: s)
  case Nil
  then show ?case by simp
next
  case (Cons x xs)
  from Cons.prems(2) have "f x s = Failed e \<or> (\<exists>s'. f x s = Done s' \<and> foldResult f xs s' = Failed e)"
    by (auto dest: thenR_Failed)
  then show ?case
  proof
    assume "f x s = Failed e"
    then show ?thesis using Cons.prems(1) [of x s e] by simp
  next
    assume "\<exists>s'. f x s = Done s' \<and> foldResult f xs s' = Failed e"
    then obtain s' where "foldResult f xs s' = Failed e" by blast
    then show ?thesis using Cons.IH [of s'] Cons.prems(1) by auto
  qed
qed

lemma attrStep_failed: "attrStep attr cm = Failed e \<Longrightarrow> usageError e"
  by (auto simp: attrStep_def asString_not_failed dest!: thenR_Failed split: if_splits sum.splits)
     (erule stringToColumnUsage_error)

lemma columnStep_failed: "columnStep metric col mm = Failed e \<Longrightarrow> usageError e"
proof -
  assume "columnStep metric col mm = Failed e"
  then obtain attrs where "foldResult attrStep attrs zeroColumnMapping = Failed e"
    by (auto simp: columnStep_def Let_def asString_not_failed asMap_not_failed dest!: thenR_Failed)
  then show ?thesis using attrStep_failed by (rule foldResult_failed [rotated])
qed

lemma metricsStep_failed: "metricsStep metric c mm = Failed e \<Longrightarrow> usageError e"
proof -
  assume "metricsStep metric c mm = Failed e"
  then obtain cols where "foldResult (columnStep metric) cols mm = Failed e"
    by (auto simp: metricsStep_def asMap_not_failed dest!: thenR_Failed)
  then show ?thesis using columnStep_failed by (rule foldResult_failed [rotated])
qed

lemma specStep_failed: "specStep metric spec st = Failed e \<Longrightarrow> usageError e"
proof -
  assume "specStep metric spec st = Failed e"
  then obtain cs where "foldResult (metricsStep metric) cs (fst st) = Failed e"
    by (auto simp: specStep_def asString_not_failed asSeq_not_failed dest!: thenR_Failed split: if_splits)
  then show ?thesis using metricsStep_failed by (rule foldResult_failed [rotated])
qed

lemma userNamespaceStep_failed: "userNamespaceStep entry st = Failed e \<Longrightarrow> usageError e"
proof -
  assume "userNamespaceStep entry st = Failed e"
  then obtain specs where "foldResult (specStep (fst entry)) specs st = Failed e"
    by (auto simp: userNamespaceStep_def asMap_not_failed dest!: thenR_Failed)
  then show ?thesis using specStep_failed by (rule foldResult_failed [rotated])
qed

lemma parse_failed: "foldResult userNamespaceStep extra st = Failed e \<Longrightarrow> usageError e"
proof -
  assume "foldResult userNamespaceStep extra st = Failed e"
  then show ?thesis using userNamespaceStep_failed by (rule foldResult_failed [rotated])
qed

text \<open>
  Claim C3, as the code has it. Whenever \<open>addQueries\<close> does not return nil, the effective
  map and the effective overrides are as they were before the call. It returns the
  decoder's error when \<open>yaml.Unmarshal\<close> rejects the document; any other error it returns is
  that of a usage string outside the six names; and on a decoded document of the expected
  shape it returns that error when some usage string is unknown, and nil otherwise.
\<close>

theorem addQueries_atomic:
  "(fst (addQueries lib content pgVersion exporterMap queryOverrideMap) \<noteq> Done ()
      \<longrightarrow> snd (addQueries lib content pgVersion exporterMap queryOverrideMap) = (exporterMap, queryOverrideMap))
   \<and> (\<forall>err. Unmarshal lib content = Inl err
      \<longrightarrow> fst (addQueries lib content pgVersion exporterMap queryOverrideMap) = Failed err)
   \<and> (\<forall>e. fst (addQueries lib content pgVersion exporterMap queryOverrideMap) = Failed e
      \<longrightarrow> Unmarshal lib content = Inl e \<or> usageError e)
   \<and> (\<forall>extra. Unmarshal lib content = Inr extra \<and> wellShaped extra
      \<longrightarrow> (if hasUnknownUsage extra
           then \<exists>e. usageError e \<and> fst (addQueries lib content pgVersion exporterMap queryOverrideMap) = Failed e
           else fst (addQueries lib content pgVersion exporterMap queryOverrideMap) = Done ()))"
proof (intro conjI allI impI)
  assume "fst (addQueries lib content pgVersion exporterMap queryOverrideMap) \<noteq> Done ()"
  then show "snd (addQueries lib content pgVersion exporterMap queryOverrideMap) = (exporterMap, queryOverrideMap)"
    by (auto simp: addQueries_def split: sum.splits result.splits)
next
  fix err
  assume "Unmarshal lib content = Inl err"
  then show "fst (addQueries lib content pgVersion exporterMap queryOverrideMap) = Failed err"
    by (simp add: addQueries_def)
next
  fix e
  assume "fst (addQueries lib content pgVersion exporterMap queryOverrideMap) = Failed e"
  then show "Unmarshal lib content = Inl e \<or> usageError e"
    by (auto simp: addQueries_def dest: parse_failed split: sum.splits result.splits)
next
  fix extra
  assume a: "Unmarshal lib content = Inr extra \<and> wellShaped extra"
  then have "(hasUnknownUsage extra \<longrightarrow> (\<exists>e. foldResult userNamespaceStep extra ([], Map.empty) = Failed e \<and> usageError e))
       \<and> (\<not> hasUnknownUsage extra \<longrightarrow> (\<exists>st'. foldResult userNamespaceStep extra ([], Map.empty) = Done st'))"
    by (intro parse_outcome) simp
  with a show "if hasUnknownUsage extra
           then \<exists>e. usageError e \<and> fst (addQueries lib content pgVersion exporterMap queryOverrideMap) = Failed e
           else fst (addQueries lib content pgVersion exporterMap queryOverrideMap) = Done ()"
    by (auto simp: addQueries_def)
qed

text \<open>
  A document with the usage \<open>BOGUS\<close>, merged into the compiled \<open>pg_locks\<close> and the overrides
  resolved for 9.6.2.
\<close>

lemma bogus_parse:
  "foldResult userNamespaceStep [(''pg_custom'', userMetrics ''BOGUS'')] ([], Map.empty)
     = Failed (WrongColumnUsage ''BOGUS'')"
  by (simp add: userNamespaceStep_def userMetrics_def specStep_def metricsStep_def columnStep_def
        attrStep_def stringToColumnUsage_def)

theorem addQueries_atomic_witness:
  "addQueries exampleLib bogusDocument (mkVersion 9 6 2)
     (makeDescMap exampleLib (mkVersion 9 6 2) [(''pg_locks'', locksColumns, locksColumns)])
     (makeQueryOverrideMap (mkVersion 9 6 2) gatedOverrides)
   = (Failed (WrongColumnUsage ''BOGUS''),
      makeDescMap exampleLib (mkVersion 9 6 2) [(''pg_locks'', locksColumns, locksColumns)],
      makeQueryOverrideMap (mkVersion 9 6 2) gatedOverrides)"
proof -
  let ?r = "addQueries exampleLib bogusDocument (mkVersion 9 6 2)
     (makeDescMap exampleLib (mkVersion 9 6 2) [(''pg_locks'', locksColumns, locksColumns)])
     (makeQueryOverrideMap (mkVersion 9 6 2) gatedOverrides)"
  have "Unmarshal exampleLib bogusDocument = Inr [(''pg_custom'', userMetrics ''BOGUS'')]"
    by (simp add: exampleLib_def exampleUnmarshal_def)
  then have f: "fst ?r = Failed (WrongColumnUsage ''BOGUS'')"
    by (simp add: addQueries_def bogus_parse del: foldResult.simps)
  then have "fst ?r \<noteq> Done ()" by simp
  with addQueries_atomic [of exampleLib bogusDocument "mkVersion 9 6 2"
      "makeDescMap exampleLib (mkVersion 9 6 2) [(''pg_locks'', locksColumns, locksColumns)]"
      "makeQueryOverrideMap (mkVersion 9 6 2) gatedOverrides"]
  have "snd ?r = (makeDescMap exampleLib (mkVersion 9 6 2) [(''pg_locks'', locksColumns, locksColumns)],
                  makeQueryOverrideMap (mkVersion 9 6 2) gatedOverrides)"
    by blast
  with f show ?thesis by (simp add: prod_eq_iff)
qed

text \<open>
  The claim as stated has every malformed document make \<open>addQueries\<close> return an error. The
  document \<open>pg_custom: 5\<close> decodes, and the type assertion on the value of the namespace
  panics.
\<close>

theorem addQueries_panic_counterexample:
  "fst (addQueries exampleLib scalarDocument (mkVersion 9 6 2) Map.empty Map.empty)
     = Panicked ''interface conversion: interface {} is not map[interface {}]interface {}''"
  by (simp add: addQueries_def exampleLib_def exampleUnmarshal_def scalarDocument_def bogusDocument_def
        goodDocument_def userNamespaceStep_def)

text \<open>
  The document of the witness with the usage \<open>COUNTER\<close>: the call returns nil, the namespace is added to
  the effective map and its query to the effective overrides.
\<close>

lemma good_document_merges:
  "fst (addQueries exampleLib goodDocument (mkVersion 9 6 2) Map.empty Map.empty) = Done ()
   \<and> map_option labels (fst (snd (addQueries exampleLib goodDocument (mkVersion 9 6 2) Map.empty Map.empty))
                          ''pg_custom'') = Some []
   \<and> snd (snd (addQueries exampleLib goodDocument (mkVersion 9 6 2) Map.empty Map.empty)) ''pg_custom''
       = Some ''SELECT 1''"
  by (simp add: addQueries_def exampleLib_def exampleUnmarshal_def goodDocument_def bogusDocument_def
        userNamespaceStep_def userMetrics_def specStep_def metricsStep_def columnStep_def
        attrStep_def stringToColumnUsage_def zeroColumnMapping_def
        makeDescMap_def compileNamespace_def constLabelsOf_def)

section \<open>Label columns missing from the result\<close>





















end
